theory Spec2Isabelle
  imports Main "HOL-Library.AList" "HOL-Library.List_Lexorder" "HOL-Library.Sublist"
begin

section \<open>JavaScript strings\<close>

text \<open>
  A JavaScript string is a sequence of UTF-16 code units; a code unit is an integer from 0
  to 65535, and nothing below does arithmetic on it. \<open>js\<close> reads an ASCII literal.
\<close>

type_synonym jsstring = "int list"

definition js :: "string \<Rightarrow> jsstring" where
  "js s = map (of_char :: char \<Rightarrow> int) s"

text \<open>
  \<open>String.prototype.trim\<close> strips the white space and line terminator code points of
  ECMAScript at both ends: U+0009 to U+000D, U+0020, U+00A0, U+1680, U+2000 to U+200A,
  U+2028, U+2029, U+202F, U+205F, U+3000 and U+FEFF. Each is one code unit.
\<close>

definition is_ws :: "int \<Rightarrow> bool" where
  "is_ws c = (c \<in> set [0x09, 0x0A, 0x0B, 0x0C, 0x0D, 0x20, 0xA0, 0x1680, 0x2028, 0x2029,
                        0x202F, 0x205F, 0x3000, 0xFEFF]
              \<or> (0x2000 \<le> c \<and> c \<le> 0x200A))"

definition trim :: "jsstring \<Rightarrow> jsstring" where
  "trim s = rev (dropWhile is_ws (rev (dropWhile is_ws s)))"

text \<open>The class \<open>\d\<close> of a regular expression without the unicode flag: \<open>0\<close> to \<open>9\<close>.\<close>

definition is_digit :: "int \<Rightarrow> bool" where
  "is_digit c = (0x30 \<le> c \<and> c \<le> 0x39)"

text \<open>
  The Unicode case mappings of the JavaScript runtime (\<open>toLowerCase\<close>, \<open>toUpperCase\<close>) and the
  case folding the database applies for \<open>mode: 'insensitive'\<close> are not part of the sources.
  The operations that use them take them as a parameter. The only fact used about the two
  case mappings is that they map the empty string, and no other, to the empty string.
\<close>

record host =
  toLowerCase :: "jsstring \<Rightarrow> jsstring"
  toUpperCase :: "jsstring \<Rightarrow> jsstring"
  caseFold :: "jsstring \<Rightarrow> jsstring"

definition case_mappings_keep_empty :: "host \<Rightarrow> bool" where
  "case_mappings_keep_empty E =
     ((\<forall>s. (toLowerCase E s = []) = (s = [])) \<and> (\<forall>s. (toUpperCase E s = []) = (s = [])))"

text \<open>\<open>private normStr(v?: string | null) { return (v ?? '').trim(); }\<close>\<close>

definition normStr :: "jsstring option \<Rightarrow> jsstring" where
  "normStr v = trim (case v of None \<Rightarrow> [] | Some s \<Rightarrow> s)"

text \<open>\<open>normEmail\<close>: the trimmed value in lower case, or null when it is blank.\<close>

definition normEmail :: "host \<Rightarrow> jsstring option \<Rightarrow> jsstring option" where
  "normEmail E v = (let s = normStr v in if s \<noteq> [] then Some (toLowerCase E s) else None)"

text \<open>\<open>normPhone\<close>: the digits of the trimmed value, or null when there are none.\<close>

definition normPhone :: "jsstring option \<Rightarrow> jsstring option" where
  "normPhone v =
     (let s = normStr v in
      if s = [] then None
      else (let digits = filter is_digit s in if digits \<noteq> [] then Some digits else None))"

text \<open>A nullable string is truthy when it is neither null nor empty.\<close>

definition truthy :: "jsstring option \<Rightarrow> bool" where
  "truthy v = (case v of None \<Rightarrow> False | Some s \<Rightarrow> s \<noteq> [])"

section \<open>The store\<close>

text \<open>
  The error values of the backend: \<open>BadRequestException\<close> with its message, the
  record-not-found failure of the store's delete, and the \<open>TypeError\<close> of the runtime.
\<close>

datatype error = BadRequest jsstring | NotFound | TypeError

record member =
  mId :: jsstring
  mProjectId :: jsstring
  mUserId :: jsstring
  mRole :: jsstring
  mCreatedAt :: nat

record user =
  uId :: jsstring
  uCode :: jsstring
  uRole :: jsstring
  uName :: jsstring
  uCity :: "jsstring option"
  uEmail :: "jsstring option"
  uPhone :: "jsstring option"
  uIsSuperAdmin :: bool
  uCreatedAt :: nat

text \<open>
  The database: the ids of the Project table (its other columns are not read by the
  operations below), the User table, the ProjectMember table and the clock that stamps
  \<open>createdAt\<close>.
\<close>

record db =
  projects :: "jsstring list"
  users :: "user list"
  members :: "member list"
  clock :: nat

text \<open>
  Modelled from the spec: the Prisma client and its schema (\<open>PrismaService\<close>) are not part
  of the sources. Following the repository contract of the specification, \<open>create\<close> gives the
  new record an id assigned at creation and the current time, \<open>findMany\<close> with
  \<open>orderBy: { createdAt: 'desc' }\<close> lists newest first, and \<open>delete\<close> fails with
  \<open>NotFound\<close> when no record has the id.
\<close>

definition fresh_id :: "jsstring list \<Rightarrow> jsstring" where
  "fresh_id ids = replicate (Suc (foldr (\<lambda>i n. max (length i) n) ids 0)) 0x63"

definition orderBy_desc :: "('a \<Rightarrow> nat) \<Rightarrow> 'a list \<Rightarrow> 'a list" where
  "orderBy_desc f xs = rev (sort_key f xs)"

definition projectMember_create :: "db \<Rightarrow> jsstring \<Rightarrow> jsstring \<Rightarrow> jsstring \<Rightarrow> member \<times> db" where
  "projectMember_create d pid uid r =
     (let m = \<lparr> mId = fresh_id (map mId (members d)), mProjectId = pid, mUserId = uid,
                 mRole = r, mCreatedAt = clock d \<rparr>
      in (m, d\<lparr> members := m # members d, clock := Suc (clock d) \<rparr>))"

definition projectMember_findMany :: "db \<Rightarrow> jsstring \<Rightarrow> member list" where
  "projectMember_findMany d pid =
     orderBy_desc mCreatedAt (filter (\<lambda>m. mProjectId m = pid) (members d))"

definition projectMember_delete :: "db \<Rightarrow> jsstring \<Rightarrow> (error + unit) \<times> db" where
  "projectMember_delete d i =
     (if list_ex (\<lambda>m. mId m = i) (members d)
      then (Inr (), d\<lparr> members := filter (\<lambda>m. mId m \<noteq> i) (members d) \<rparr>)
      else (Inl NotFound, d))"

definition project_findUnique :: "db \<Rightarrow> jsstring \<Rightarrow> bool" where
  "project_findUnique d pid = (pid \<in> set (projects d))"

definition user_findUnique :: "db \<Rightarrow> jsstring \<Rightarrow> bool" where
  "user_findUnique d uid = list_ex (\<lambda>u. uId u = uid) (users d)"

section \<open>AdminService: assignments\<close>

text \<open>The body of \<open>POST /admin/assignments\<close>; a field that is missing reads as the empty
  string, as \<open>normStr\<close> reads it.\<close>

record AssignDto =
  projectId :: jsstring
  userId :: jsstring
  role :: jsstring

text \<open>
  \<open>AdminService.assign\<close>: the three fields are trimmed and must be non-empty, both ids
  must resolve, and then a ProjectMember row is created. Nothing is deleted and the role is
  not compared with any catalog.
\<close>

definition assign :: "db \<Rightarrow> AssignDto \<Rightarrow> (error + member) \<times> db" where
  "assign d dto =
     (let pid = normStr (Some (projectId dto));
          uid = normStr (Some (userId dto));
          r = normStr (Some (role dto))
      in if pid = [] \<or> uid = [] \<or> r = []
         then (Inl (BadRequest (js ''projectId, userId, role required'')), d)
         else if \<not> project_findUnique d pid then (Inl (BadRequest (js ''Invalid projectId'')), d)
         else if \<not> user_findUnique d uid then (Inl (BadRequest (js ''Invalid userId'')), d)
         else (case projectMember_create d pid uid r of (m, d') \<Rightarrow> (Inr m, d')))"

text \<open>\<open>AdminService.listAssignments\<close>: a read; the joined user is not used by the callers
  modelled here.\<close>

definition listAssignments :: "db \<Rightarrow> jsstring \<Rightarrow> error + member list" where
  "listAssignments d pidRaw =
     (let pid = normStr (Some pidRaw)
      in if pid = [] then Inl (BadRequest (js ''projectId required''))
         else Inr (projectMember_findMany d pid))"

text \<open>\<open>AdminService.removeAssignment\<close>.\<close>

definition removeAssignment :: "db \<Rightarrow> jsstring \<Rightarrow> (error + unit) \<times> db" where
  "removeAssignment d i =
     (let pid = normStr (Some i)
      in if pid = [] then (Inl (BadRequest (js ''id required'')), d)
         else projectMember_delete d pid)"

section \<open>AdminController: role catalog, reading and bulk assignment\<close>

definition ROLE_CATALOG :: "jsstring list" where
  "ROLE_CATALOG =
     map js
       [''Admin'', ''Customer'', ''PMC'', ''Architect'', ''Designer'', ''Contractor'',
        ''Legal/Liasoning'', ''Ava-PMT'', ''Engineer (Contractor)'', ''DC (Contractor)'',
        ''DC (PMC)'', ''Inspector (PMC)'', ''HOD (PMC)'']"

text \<open>
  The two handlers keep their maps in plain objects (\<open>{}\<close>), which inherit from
  \<open>Object.prototype\<close>. Its property names are those of ECMAScript with Annex B. Reading one
  of them from an object that has no own property of that name gives the inherited value,
  a function or object. Writing a string to \<open>__proto__\<close> runs the inherited setter, which
  ignores a value that is neither an object nor null, and adds no property.
\<close>

definition Object_prototype_names :: "jsstring list" where
  "Object_prototype_names =
     map js
       [''constructor'', ''__defineGetter__'', ''__defineSetter__'', ''hasOwnProperty'',
        ''__lookupGetter__'', ''__lookupSetter__'', ''isPrototypeOf'',
        ''propertyIsEnumerable'', ''toString'', ''valueOf'', ''__proto__'',
        ''toLocaleString'']"

text \<open>
  The mapping \<open>{ [role]: userId | null }\<close> that the read returns: its own keys, each with a
  nullable string.
\<close>

type_synonym role_map = "jsstring \<rightharpoonup> jsstring option"

text \<open>
  \<open>getProjectRoles\<close>: every catalog role starts as \<open>null\<close>; then every listed row with a
  truthy role writes \<open>assignments[row.role]\<close>, in list order.
\<close>

definition init_roles :: role_map where
  "init_roles = foldl (\<lambda>a r. a(r \<mapsto> None)) Map.empty ROLE_CATALOG"

definition put_row :: "role_map \<Rightarrow> member \<Rightarrow> role_map" where
  "put_row a row =
     (if mRole row \<noteq> [] \<and> mRole row \<noteq> js ''__proto__'' then a(mRole row \<mapsto> Some (mUserId row))
      else a)"

definition getProjectRoles :: "db \<Rightarrow> jsstring \<Rightarrow> error + role_map" where
  "getProjectRoles d pid =
     (case listAssignments d pid of
        Inl e \<Rightarrow> Inl e
      | Inr items \<Rightarrow> Inr (foldl put_row init_roles items))"

text \<open>
  The JSON values a snapshot can hold: \<open>null\<close>, a string, or another value (a number, a
  boolean, an array, an object), of which the handler only tests the truthiness. The request
  body of the bulk assignment is rejected by the guard when the body is falsy or
  \<open>typeof body.assignments\<close> is not \<open>'object'\<close>; \<open>null\<close> passes that guard, and so does
  every object, whose own keys and values are the snapshot.
\<close>

datatype jvalue = JNull | JString jsstring | JOther bool

type_synonym snapshot = "jsstring \<rightharpoonup> jvalue"

datatype body = NoAssignments | NullAssignments | Assignments snapshot

definition truthy_value :: "jvalue \<Rightarrow> bool" where
  "truthy_value v = (case v of JNull \<Rightarrow> False | JString s \<Rightarrow> s \<noteq> [] | JOther b \<Rightarrow> b)"

text \<open>\<open>curUserId === nextUserId\<close> between a nullable string and a JSON value.\<close>

definition strict_eq :: "jsstring option \<Rightarrow> jvalue \<Rightarrow> bool" where
  "strict_eq c v =
     (case v of JNull \<Rightarrow> c = None | JString s \<Rightarrow> c = Some s | JOther b \<Rightarrow> False)"

text \<open>
  \<open>currentByRole\<close> is a JavaScript \<open>Map\<close>: \<open>set\<close> on a key that is present replaces the
  value in place, on a new key appends, and iteration follows that order; this is
  \<^const>\<open>AList.update\<close>. Entries are the pair of the row's id and userId.
\<close>

definition index_row :: "(jsstring \<times> jsstring \<times> jsstring) list \<Rightarrow> member \<Rightarrow> (jsstring \<times> jsstring \<times> jsstring) list" where
  "index_row cur row =
     (if mRole row \<noteq> [] \<and> mId row \<noteq> [] then AList.update (mRole row) (mId row, mUserId row) cur
      else cur)"

definition currentByRole :: "member list \<Rightarrow> (jsstring \<times> jsstring \<times> jsstring) list" where
  "currentByRole items = foldl index_row [] items"

text \<open>
  The normalised snapshot \<open>desired\<close>: a plain object whose own keys are exactly the catalog
  roles, a key missing from the body read as null. No catalog role is \<open>__proto__\<close>, so each
  write adds its key.
\<close>

definition desired :: "snapshot \<Rightarrow> snapshot" where
  "desired a = foldl (\<lambda>d r. d(r \<mapsto> (case a r of Some v \<Rightarrow> v | None \<Rightarrow> JNull))) Map.empty ROLE_CATALOG"

text \<open>
  The loop that fills \<open>desired\<close> calls \<open>body.assignments.hasOwnProperty(role)\<close> for the
  first catalog role at once. That throws a \<open>TypeError\<close> when \<open>body.assignments\<close> is
  \<open>null\<close>, and when it has an own key \<open>hasOwnProperty\<close>, whose JSON value is not a
  function.
\<close>

definition normalize_incoming :: "body \<Rightarrow> error + snapshot" where
  "normalize_incoming b =
     (case b of
        Assignments a \<Rightarrow> if a (js ''hasOwnProperty'') = None then Inr (desired a) else Inl TypeError
      | _ \<Rightarrow> Inl TypeError)"

text \<open>
  \<open>desired[role] ?? null\<close>: the own property when there is one, the inherited value for a
  name of \<open>Object.prototype\<close>, and null otherwise.
\<close>

definition nextUserId :: "snapshot \<Rightarrow> jsstring \<Rightarrow> jvalue" where
  "nextUserId des r =
     (case des r of
        Some v \<Rightarrow> v
      | None \<Rightarrow> if r \<in> set Object_prototype_names then JOther True else JNull)"

text \<open>Step 2: remove the indexed record of every role whose next value is null.\<close>

definition remove_step :: "snapshot \<Rightarrow> db \<Rightarrow> jsstring \<times> jsstring \<times> jsstring \<Rightarrow> (error + unit) \<times> db" where
  "remove_step des d entry =
     (if nextUserId des (fst entry) = JNull then removeAssignment d (fst (snd entry))
      else (Inr (), d))"

fun remove_loop :: "snapshot \<Rightarrow> (jsstring \<times> jsstring \<times> jsstring) list \<Rightarrow> db \<Rightarrow> (error + unit) \<times> db" where
  "remove_loop des [] d = (Inr (), d)"
| "remove_loop des (entry # rest) d =
     (case remove_step des d entry of
        (Inl e, d') \<Rightarrow> (Inl e, d')
      | (Inr u, d') \<Rightarrow> remove_loop des rest d')"

text \<open>
  Step 3: for every catalog role, skip when both sides are null or both are the same truthy
  user; otherwise call \<open>assign\<close> when the next value is truthy. No record is removed here.
  \<open>assign\<close> starts with \<open>normStr\<close>, which calls \<open>trim\<close> on the user id: a truthy value that
  is not a string has no such method and the call throws a \<open>TypeError\<close>.
\<close>

definition upsert_step :: "jsstring \<Rightarrow> snapshot \<Rightarrow> (jsstring \<times> jsstring \<times> jsstring) list \<Rightarrow> db \<Rightarrow> jsstring \<Rightarrow> (error + unit) \<times> db" where
  "upsert_step pid des cur d r =
     (let next = nextUserId des r;
          curUserId = map_option snd (map_of cur r)
      in if curUserId = None \<and> next = JNull then (Inr (), d)
         else if truthy curUserId \<and> truthy_value next \<and> strict_eq curUserId next then (Inr (), d)
         else if truthy_value next
         then (case next of
                 JString u \<Rightarrow>
                   (case assign d \<lparr> projectId = pid, userId = u, role = r \<rparr> of
                      (Inl e, d') \<Rightarrow> (Inl e, d')
                    | (Inr m, d') \<Rightarrow> (Inr (), d'))
               | _ \<Rightarrow> (Inl TypeError, d))
         else (Inr (), d))"

fun upsert_loop :: "jsstring \<Rightarrow> snapshot \<Rightarrow> (jsstring \<times> jsstring \<times> jsstring) list \<Rightarrow> jsstring list \<Rightarrow> db \<Rightarrow> (error + unit) \<times> db" where
  "upsert_loop pid des cur [] d = (Inr (), d)"
| "upsert_loop pid des cur (r # rest) d =
     (case upsert_step pid des cur d r of
        (Inl e, d') \<Rightarrow> (Inl e, d')
      | (Inr u, d') \<Rightarrow> upsert_loop pid des cur rest d')"

text \<open>
  \<open>setProjectRoles\<close>: the guard, the read of the current rows, the index, the normalised
  snapshot, then the two loops. The result is the response together with the database the
  call leaves behind.
\<close>

definition setProjectRoles :: "db \<Rightarrow> jsstring \<Rightarrow> body \<Rightarrow> (error + unit) \<times> db" where
  "setProjectRoles d pid b =
     (case b of
        NoAssignments \<Rightarrow> (Inl (BadRequest (js ''assignments object is required'')), d)
      | _ \<Rightarrow>
          (case listAssignments d pid of
             Inl e \<Rightarrow> (Inl e, d)
           | Inr currentItems \<Rightarrow>
               (let cur = currentByRole currentItems
                in case normalize_incoming b of
                     Inl e \<Rightarrow> (Inl e, d)
                   | Inr des \<Rightarrow>
                       (case remove_loop des cur d of
                          (Inl e, d') \<Rightarrow> (Inl e, d')
                        | (Inr u, d') \<Rightarrow> upsert_loop pid des cur ROLE_CATALOG d'))))"

section \<open>Users\<close>

text \<open>
  The fields of the request body of \<open>POST /admin/users\<close>; a field that is missing or
  \<open>null\<close> is \<open>None\<close>.
\<close>

record CreateUserDto =
  dto_code :: "jsstring option"
  dto_role :: "jsstring option"
  dto_name :: "jsstring option"
  dto_city :: "jsstring option"
  dto_email :: "jsstring option"
  dto_phone :: "jsstring option"
  dto_isSuperAdmin :: bool

text \<open>
  Modelled from the spec: \<open>prisma.user.findFirst\<close> and \<open>prisma.user.create\<close> of the
  absent Prisma client; the new user gets an id assigned at creation and the current time.
\<close>

definition user_create :: "db \<Rightarrow> user \<Rightarrow> user \<times> db" where
  "user_create d data =
     (let u = data\<lparr> uId := fresh_id (map uId (users d)), uCreatedAt := clock d \<rparr>
      in (u, d\<lparr> users := u # users d, clock := Suc (clock d) \<rparr>))"

definition quoted :: "jsstring \<Rightarrow> jsstring" where
  "quoted s = [0x22] @ s @ [0x22]"

text \<open>\<open>AdminService.createUser\<close>\<close>

definition createUser :: "host \<Rightarrow> db \<Rightarrow> CreateUserDto \<Rightarrow> (error + user) \<times> db" where
  "createUser E d dto =
     (let code = toUpperCase E (normStr (dto_code dto));
          role = normStr (dto_role dto);
          name = normStr (dto_name dto);
          city = normStr (dto_city dto);
          email = normEmail E (dto_email dto);
          phone = normPhone (dto_phone dto);
          isSuperAdmin = dto_isSuperAdmin dto
      in if code = [] \<or> role = [] \<or> name = []
         then (Inl (BadRequest (js ''code, role and name are required'')), d)
         else if \<not> truthy email \<and> \<not> truthy phone
         then (Inl (BadRequest (js ''Either email or phone is required'')), d)
         else if list_ex (\<lambda>u. uCode u = code) (users d)
         then (Inl (BadRequest (js ''User code '' @ quoted code @ js '' already exists'')), d)
         else if truthy email \<and> list_ex (\<lambda>u. uEmail u = email) (users d)
         then (Inl (BadRequest (js ''Email '' @ quoted (the email) @ js '' already in use'')), d)
         else if truthy phone \<and> list_ex (\<lambda>u. uPhone u = phone) (users d)
         then (Inl (BadRequest (js ''Phone '' @ quoted (the phone) @ js '' already in use'')), d)
         else (case user_create d
                      \<lparr> uId = [], uCode = code, uRole = role, uName = name,
                        uCity = (if city \<noteq> [] then Some city else None),
                        uEmail = email, uPhone = phone, uIsSuperAdmin = isSuperAdmin,
                        uCreatedAt = 0 \<rparr> of
                 (u, d') \<Rightarrow> (Inr u, d')))"

text \<open>\<open>AdminController.createUser\<close> (\<open>POST /admin/users\<close>)\<close>

definition createUser_handler :: "host \<Rightarrow> db \<Rightarrow> CreateUserDto \<Rightarrow> (error + user) \<times> db" where
  "createUser_handler E d dto =
     (if \<not> truthy (dto_code dto) \<or> \<not> truthy (dto_role dto) \<or> \<not> truthy (dto_name dto)
      then (Inl (BadRequest (js ''code, role and name are required'')), d)
      else createUser E d dto)"

text \<open>
  \<open>AdminService.searchUsers\<close>. Modelled from the spec: \<open>contains\<close> of the absent Prisma
  client is the substring test, with \<open>mode: 'insensitive'\<close> after case folding; a null
  column matches nothing; \<open>orderBy\<close> sorts (names by their code units), then \<open>take\<close> keeps
  the first 50.
\<close>

definition contains_insensitive :: "host \<Rightarrow> jsstring \<Rightarrow> jsstring \<Rightarrow> bool" where
  "contains_insensitive E field q = sublist (caseFold E q) (caseFold E field)"

definition user_matches :: "host \<Rightarrow> jsstring \<Rightarrow> user \<Rightarrow> bool" where
  "user_matches E q u =
     ((case uEmail u of None \<Rightarrow> False | Some e \<Rightarrow> contains_insensitive E e q)
      \<or> contains_insensitive E (uName u) q
      \<or> contains_insensitive E (uCode u) q
      \<or> contains_insensitive E (uRole u) q
      \<or> (case uPhone u of None \<Rightarrow> False | Some ph \<Rightarrow> sublist q ph))"

definition searchUsers :: "host \<Rightarrow> db \<Rightarrow> jsstring option \<Rightarrow> user list" where
  "searchUsers E d q =
     (let query = normStr q
      in if query = [] then take 50 (orderBy_desc uCreatedAt (users d))
         else take 50 (sort_key uName (filter (user_matches E query) (users d))))"

text \<open>\<open>AdminController.searchUsers\<close> (\<open>GET /admin/users\<close>): \<open>q || ''\<close>\<close>

definition searchUsers_handler :: "host \<Rightarrow> db \<Rightarrow> jsstring option \<Rightarrow> user list" where
  "searchUsers_handler E d q = searchUsers E d (Some (if truthy q then the q else []))"

section \<open>Sequences of operations and the slot invariant\<close>

text \<open>
  Invariant I1 on the stored records: no two of them share the pair of project and role.
\<close>

definition slot :: "member \<Rightarrow> jsstring \<times> jsstring" where
  "slot m = (mProjectId m, mRole m)"

definition I1 :: "db \<Rightarrow> bool" where
  "I1 d = distinct (map slot (members d))"

text \<open>
  The three mutating operations of the API, and the database a call leaves behind, whether
  it answers with a result or with an error.
\<close>

datatype op = SetState jsstring body | AssignOne AssignDto | RemoveOne jsstring

fun step :: "db \<Rightarrow> op \<Rightarrow> db" where
  "step d (SetState pid b) = snd (setProjectRoles d pid b)"
| "step d (AssignOne dto) = snd (assign d dto)"
| "step d (RemoveOne i) = snd (removeAssignment d i)"

definition run :: "db \<Rightarrow> op list \<Rightarrow> db" where
  "run d ops = foldl step d ops"

section \<open>The mutations a bulk assignment issues\<close>

text \<open>
  \<open>setProjectRoles\<close> decides every call to the service from the rows it read at the
  start: first the deletes of step 2 in the order of the index, then the calls to \<open>assign\<close>
  of step 3 in catalog order, with a string as user id or with another truthy value.
\<close>

datatype mutation = Delete jsstring | Create jsstring jsstring jsstring | CreateNonString jsstring jsstring

fun apply_mutation :: "db \<Rightarrow> mutation \<Rightarrow> (error + unit) \<times> db" where
  "apply_mutation d (Delete i) = removeAssignment d i"
| "apply_mutation d (Create pid uid r) =
     (case assign d \<lparr> projectId = pid, userId = uid, role = r \<rparr> of
        (Inl e, d') \<Rightarrow> (Inl e, d')
      | (Inr m, d') \<Rightarrow> (Inr (), d'))"
| "apply_mutation d (CreateNonString pid r) = (Inl TypeError, d)"


fun exec :: "mutation list \<Rightarrow> db \<Rightarrow> (error + unit) \<times> db" where
  "exec [] d = (Inr (), d)"
| "exec (m # ms) d =
     (case apply_mutation d m of
        (Inl e, d') \<Rightarrow> (Inl e, d')
      | (Inr u, d') \<Rightarrow> exec ms d')"

definition needs_assign :: "snapshot \<Rightarrow> (jsstring \<times> jsstring \<times> jsstring) list \<Rightarrow> jsstring \<Rightarrow> bool" where
  "needs_assign des cur r =
     (let next = nextUserId des r;
          curUserId = map_option snd (map_of cur r)
      in \<not> (curUserId = None \<and> next = JNull)
         \<and> \<not> (truthy curUserId \<and> truthy_value next \<and> strict_eq curUserId next)
         \<and> truthy_value next)"

definition assign_call :: "jsstring \<Rightarrow> snapshot \<Rightarrow> jsstring \<Rightarrow> mutation" where
  "assign_call pid des r =
     (case nextUserId des r of JString u \<Rightarrow> Create pid u r | _ \<Rightarrow> CreateNonString pid r)"

definition planned :: "db \<Rightarrow> jsstring \<Rightarrow> snapshot \<Rightarrow> mutation list" where
  "planned d pid a =
     (let cur = currentByRole (projectMember_findMany d (trim pid));
          des = desired a
      in map (\<lambda>entry. Delete (fst (snd entry))) (filter (\<lambda>entry. nextUserId des (fst entry) = JNull) cur)
         @ map (assign_call pid des) (filter (needs_assign des cur) ROLE_CATALOG))"

text \<open>
  A call fills only empty slots when an \<open>assignOne\<close> names a slot without a record, and a
  \<open>setState\<close> calls \<open>assign\<close> only for roles whose slot holds no record.
\<close>

definition slot_free :: "db \<Rightarrow> jsstring \<Rightarrow> jsstring \<Rightarrow> bool" where
  "slot_free d pid r = list_all (\<lambda>m. slot m \<noteq> (pid, r)) (members d)"

fun fills_only_empty :: "db \<Rightarrow> op \<Rightarrow> bool" where
  "fills_only_empty d (SetState pid b) =
     (case b of
        Assignments a \<Rightarrow>
          list_all (\<lambda>r. needs_assign (desired a) (currentByRole (projectMember_findMany d (trim pid))) r
                      \<longrightarrow> slot_free d (trim pid) r)
            ROLE_CATALOG
      | _ \<Rightarrow> True)"
| "fills_only_empty d (AssignOne dto) = slot_free d (trim (projectId dto)) (trim (role dto))"
| "fills_only_empty d (RemoveOne i) = True"

fun fills_only_empty_run :: "db \<Rightarrow> op list \<Rightarrow> bool" where
  "fills_only_empty_run d [] = True"
| "fills_only_empty_run d (x # xs) = (fills_only_empty d x \<and> fills_only_empty_run (step d x) xs)"

section \<open>Example inputs\<close>

text \<open>A host whose case mappings and case folding act on the ASCII letters only.\<close>

definition ascii_lower :: "int \<Rightarrow> int" where
  "ascii_lower c = (if 0x41 \<le> c \<and> c \<le> 0x5A then c + 32 else c)"

definition ascii_upper :: "int \<Rightarrow> int" where
  "ascii_upper c = (if 0x61 \<le> c \<and> c \<le> 0x7A then c - 32 else c)"

definition ascii_host :: host where
  "ascii_host = \<lparr> toLowerCase = map ascii_lower, toUpperCase = map ascii_upper,
                   caseFold = map ascii_lower \<rparr>"

definition ann :: user where
  "ann = \<lparr> uId = js ''u1'', uCode = js ''U1'', uRole = js ''PMC'', uName = js ''Ann'',
           uCity = None, uEmail = Some (js ''ann@example.org''), uPhone = None,
           uIsSuperAdmin = False, uCreatedAt = 0 \<rparr>"

definition bob :: user where
  "bob = \<lparr> uId = js ''u2'', uCode = js ''U2'', uRole = js ''Architect'', uName = js ''Bob'',
           uCity = None, uEmail = None, uPhone = Some (js ''5550100''),
           uIsSuperAdmin = False, uCreatedAt = 1 \<rparr>"

text \<open>One project, two users, no assignment yet.\<close>

definition db_empty :: db where
  "db_empty = \<lparr> projects = [js ''p1''], users = [bob, ann], members = [], clock = 2 \<rparr>"

text \<open>The project with Ann as its PMC.\<close>

definition db_pmc_ann :: db where
  "db_pmc_ann =
     \<lparr> projects = [js ''p1''], users = [bob, ann],
       members = [\<lparr> mId = js ''m1'', mProjectId = js ''p1'', mUserId = js ''u1'',
                    mRole = js ''PMC'', mCreatedAt = 2 \<rparr>],
       clock = 3 \<rparr>"


text \<open>Two PMC records on the project: Ann's, created first, and Bob's, created later.\<close>

definition db_two_pmc :: db where
  "db_two_pmc =
     \<lparr> projects = [js ''p1''], users = [bob, ann],
       members = [\<lparr> mId = js ''m2'', mProjectId = js ''p1'', mUserId = js ''u2'',
                    mRole = js ''PMC'', mCreatedAt = 3 \<rparr>,
                  \<lparr> mId = js ''m1'', mProjectId = js ''p1'', mUserId = js ''u1'',
                    mRole = js ''PMC'', mCreatedAt = 2 \<rparr>],
       clock = 4 \<rparr>"

text \<open>Two records on the project whose role is not in the catalog.\<close>

definition db_two_unknown :: db where
  "db_two_unknown =
     \<lparr> projects = [js ''p1''], users = [bob, ann],
       members = [\<lparr> mId = js ''m2'', mProjectId = js ''p1'', mUserId = js ''u2'',
                    mRole = js ''NotARole'', mCreatedAt = 3 \<rparr>,
                  \<lparr> mId = js ''m1'', mProjectId = js ''p1'', mUserId = js ''u1'',
                    mRole = js ''NotARole'', mCreatedAt = 2 \<rparr>],
       clock = 4 \<rparr>"

text \<open>A record whose role is \<open>__proto__\<close>, as \<open>assign\<close> stores it, beside Ann's PMC record.\<close>

definition db_proto_role :: db where
  "db_proto_role =
     \<lparr> projects = [js ''p1''], users = [bob, ann],
       members = [\<lparr> mId = js ''m2'', mProjectId = js ''p1'', mUserId = js ''u2'',
                    mRole = js ''__proto__'', mCreatedAt = 3 \<rparr>,
                  \<lparr> mId = js ''m1'', mProjectId = js ''p1'', mUserId = js ''u1'',
                    mRole = js ''PMC'', mCreatedAt = 2 \<rparr>],
       clock = 4 \<rparr>"

text \<open>Requests to create a user: with a phone that has no digit, with an email, with a
  blank email and no phone, and with an email that is one no-break space.\<close>

definition dto_phone_abc :: CreateUserDto where
  "dto_phone_abc =
     \<lparr> dto_code = Some (js ''U3''), dto_role = Some (js ''PMC''), dto_name = Some (js ''Cy''),
       dto_city = None, dto_email = None, dto_phone = Some (js ''abc''),
       dto_isSuperAdmin = False \<rparr>"

definition dto_with_email :: CreateUserDto where
  "dto_with_email =
     \<lparr> dto_code = Some (js ''u3''), dto_role = Some (js ''PMC''), dto_name = Some (js ''Cy''),
       dto_city = None, dto_email = Some (js '' Cy@X.org ''), dto_phone = None,
       dto_isSuperAdmin = False \<rparr>"

definition dto_no_contact :: CreateUserDto where
  "dto_no_contact =
     \<lparr> dto_code = Some (js ''U3''), dto_role = Some (js ''PMC''), dto_name = Some (js ''Cy''),
       dto_city = None, dto_email = Some (js ''  ''), dto_phone = None,
       dto_isSuperAdmin = False \<rparr>"

definition dto_nbsp_email :: CreateUserDto where
  "dto_nbsp_email =
     \<lparr> dto_code = Some (js ''U3''), dto_role = Some (js ''PMC''), dto_name = Some (js ''Cy''),
       dto_city = None, dto_email = Some [0xA0], dto_phone = None,
       dto_isSuperAdmin = False \<rparr>"

text \<open>Snapshots sent to the bulk assignment, and sequences of calls.\<close>

definition snapshot_pmc_bob :: snapshot where
  "snapshot_pmc_bob = [js ''PMC'' \<mapsto> JString (js ''u2'')]"


definition snapshot_unknown :: snapshot where
  "snapshot_unknown = [js ''NotARole'' \<mapsto> JString (js ''u9'')]"

definition snapshot_hasOwnProperty :: snapshot where
  "snapshot_hasOwnProperty = [js ''hasOwnProperty'' \<mapsto> JString (js ''u9'')]"

definition snapshot_pmc_number :: snapshot where
  "snapshot_pmc_number = [js ''PMC'' \<mapsto> JOther True]"

definition db_after_replace :: db where
  "db_after_replace = snd (setProjectRoles db_pmc_ann (js ''p1'') (Assignments snapshot_pmc_bob))"

definition ops_assign_twice :: "op list" where
  "ops_assign_twice =
     [AssignOne \<lparr> projectId = js ''p1'', userId = js ''u1'', role = js ''PMC'' \<rparr>,
      AssignOne \<lparr> projectId = js ''p1'', userId = js ''u2'', role = js ''PMC'' \<rparr>]"

definition ops_empty_slots :: "op list" where
  "ops_empty_slots =
     [AssignOne \<lparr> projectId = js ''p1'', userId = js ''u1'', role = js ''PMC'' \<rparr>,
      SetState (js ''p1'')
        (Assignments [js ''PMC'' \<mapsto> JString (js ''u1''), js ''Architect'' \<mapsto> JString (js ''u2'')]),
      RemoveOne (js ''c''),
      AssignOne \<lparr> projectId = js ''p1'', userId = js ''u2'', role = js ''PMC'' \<rparr>,
      SetState (js ''p1'') (Assignments snapshot_pmc_bob)]"

definition ops_unknown_role :: "op list" where
  "ops_unknown_role =
     [AssignOne \<lparr> projectId = js ''p1'', userId = js ''u1'', role = js ''NotARole'' \<rparr>,
      AssignOne \<lparr> projectId = js ''p1'', userId = js ''u2'', role = js ''NotARole'' \<rparr>,
      SetState (js ''p1'') (Assignments snapshot_unknown)]"

section \<open>Facts about the catalog and the store\<close>

lemma catalog_trimmed: "\<forall>r\<in>set ROLE_CATALOG. trim r = r"
  by code_simp

lemma catalog_distinct: "distinct ROLE_CATALOG"
  by code_simp

lemma catalog_not_inherited: "\<forall>r\<in>set ROLE_CATALOG. r \<notin> set Object_prototype_names"
  by code_simp

lemma trim_examples:
  "trim (js ''  '') = []" "trim [0xA0] = []" "trim (js ''p1'') = js ''p1''"
  "trim (js ''u1'') = js ''u1''" "trim (js ''u2'') = js ''u2''"
  "trim (js ''ghost'') = js ''ghost''" "trim (js ''PMC'') = js ''PMC''"
  "trim (js ''NotARole'') = js ''NotARole''"
  by code_simp+

lemma set_findMany:
  "set (projectMember_findMany d pid) = {m \<in> set (members d). mProjectId m = pid}"
  by (auto simp: projectMember_findMany_def orderBy_desc_def)

lemma assign_cases:
  "assign d dto =
    (if trim (projectId dto) = [] \<or> trim (userId dto) = [] \<or> trim (role dto) = []
     then (Inl (BadRequest (js ''projectId, userId, role required'')), d)
     else if trim (projectId dto) \<notin> set (projects d) then (Inl (BadRequest (js ''Invalid projectId'')), d)
     else if trim (userId dto) \<notin> uId ` set (users d) then (Inl (BadRequest (js ''Invalid userId'')), d)
     else (let m = \<lparr> mId = fresh_id (map mId (members d)), mProjectId = trim (projectId dto),
                      mUserId = trim (userId dto), mRole = trim (role dto), mCreatedAt = clock d \<rparr>
           in (Inr m, d\<lparr> members := m # members d, clock := Suc (clock d) \<rparr>)))"
  by (auto simp: assign_def Let_def normStr_def project_findUnique_def user_findUnique_def
      projectMember_create_def list_ex_iff image_iff)

section \<open>Reading the roles of a project\<close>

lemma dom_put_rows:
  "dom (foldl put_row a items)
     = dom a \<union> {mRole m | m. m \<in> set items \<and> mRole m \<noteq> [] \<and> mRole m \<noteq> js ''__proto__''}"
  by (induction items arbitrary: a) (auto simp: put_row_def)

lemma init_fold_dom:
  "dom (foldl (\<lambda>a r. a(r \<mapsto> None)) (b :: role_map) rs) = dom b \<union> set rs"
  by (induction rs arbitrary: b) auto

lemma dom_init_roles: "dom init_roles = set ROLE_CATALOG"
  by (simp add: init_roles_def init_fold_dom)

lemma init_fold_val:
  "r \<in> set rs \<Longrightarrow> foldl (\<lambda>a r. a(r \<mapsto> None)) (b :: role_map) rs r = Some None"
  by (induction rs arbitrary: b rule: rev_induct) auto

lemma init_roles_val: "r \<in> set ROLE_CATALOG \<Longrightarrow> init_roles r = Some None"
  by (simp add: init_roles_def init_fold_val)

lemma put_rows_untouched:
  "\<forall>m\<in>set items. mRole m \<noteq> r \<Longrightarrow> foldl put_row a items r = a r"
  by (induction items arbitrary: a) (auto simp: put_row_def)

lemma getProjectRoles_nonblank:
  "trim pid \<noteq> [] \<Longrightarrow>
   getProjectRoles d pid = Inr (foldl put_row init_roles (projectMember_findMany d (trim pid)))"
  by (simp add: getProjectRoles_def listAssignments_def normStr_def)

text \<open>
  C4, as the code has it. For a project id that is blank after trimming the read fails.
  Otherwise the keys of the returned mapping are the catalog roles together with the roles
  of the records stored for the project, the empty role and the role \<open>__proto__\<close> apart:
  every catalog role is present, with \<open>null\<close> when the project has no record for it, and
  another role is a key exactly when the project has a record with that role.
\<close>

theorem getProjectRoles_keys:
  "(trim pid = [] \<longrightarrow> getProjectRoles d pid = Inl (BadRequest (js ''projectId required'')))
   \<and> (trim pid \<noteq> [] \<longrightarrow>
        (\<exists>a. getProjectRoles d pid = Inr a
           \<and> dom a = set ROLE_CATALOG
                \<union> set [mRole m. m \<leftarrow> members d,
                         mProjectId m = trim pid \<and> mRole m \<noteq> [] \<and> mRole m \<noteq> js ''__proto__'']
           \<and> (\<forall>r\<in>set ROLE_CATALOG.
                 (\<forall>m\<in>set (members d). mProjectId m = trim pid \<longrightarrow> mRole m \<noteq> r) \<longrightarrow> a r = Some None)))"
proof (intro conjI impI)
  assume "trim pid = []"
  then show "getProjectRoles d pid = Inl (BadRequest (js ''projectId required''))"
    by (simp add: getProjectRoles_def listAssignments_def normStr_def)
next
  assume nb: "trim pid \<noteq> []"
  let ?items = "projectMember_findMany d (trim pid)"
  let ?a = "foldl put_row init_roles ?items"
  let ?K = "set ROLE_CATALOG
                \<union> set [mRole m. m \<leftarrow> members d,
                         mProjectId m = trim pid \<and> mRole m \<noteq> [] \<and> mRole m \<noteq> js ''__proto__'']"
  have 1: "getProjectRoles d pid = Inr ?a" using nb by (rule getProjectRoles_nonblank)
  have 2: "dom ?a = ?K"
    by (auto simp: dom_put_rows dom_init_roles set_findMany)
  have 3: "\<forall>r\<in>set ROLE_CATALOG.
                 (\<forall>m\<in>set (members d). mProjectId m = trim pid \<longrightarrow> mRole m \<noteq> r) \<longrightarrow> ?a r = Some None"
    by (auto simp: put_rows_untouched set_findMany init_roles_val)
  from 1 2 3 show "\<exists>a. getProjectRoles d pid = Inr a \<and> dom a = ?K
           \<and> (\<forall>r\<in>set ROLE_CATALOG.
                 (\<forall>m\<in>set (members d). mProjectId m = trim pid \<longrightarrow> mRole m \<noteq> r) \<longrightarrow> a r = Some None)"
    by blast
qed

theorem getProjectRoles_keys_witness:
  "trim [0xA0] = [] \<and> getProjectRoles db_pmc_ann [0xA0] = Inl (BadRequest (js ''projectId required''))
   \<and> trim (js ''p1'') \<noteq> []
   \<and> (\<exists>a. getProjectRoles db_two_unknown (js ''p1'') = Inr a
         \<and> dom a = set ROLE_CATALOG \<union> {js ''NotARole''} \<and> a (js ''Architect'') = Some None)
   \<and> (\<exists>a. getProjectRoles db_proto_role (js ''p1'') = Inr a \<and> dom a = set ROLE_CATALOG)"
proof -
  have b: "trim [0xA0] = []" by (simp add: trim_examples)
  have n: "trim (js ''p1'') = js ''p1''" by (simp add: trim_examples)
  have n': "trim (js ''p1'') \<noteq> []" by code_simp
  have s: "set [mRole m. m \<leftarrow> members db_two_unknown,
                mProjectId m = js ''p1'' \<and> mRole m \<noteq> [] \<and> mRole m \<noteq> js ''__proto__'']
            = {js ''NotARole''}"
    by code_simp
  have s2: "set [mRole m. m \<leftarrow> members db_proto_role,
                mProjectId m = js ''p1'' \<and> mRole m \<noteq> [] \<and> mRole m \<noteq> js ''__proto__'']
            \<subseteq> set ROLE_CATALOG"
    by code_simp
  have c: "js ''Architect'' \<in> set ROLE_CATALOG" by code_simp
  have f: "\<forall>m\<in>set (members db_two_unknown). mProjectId m = js ''p1'' \<longrightarrow> mRole m \<noteq> js ''Architect''"
    by code_simp
  from getProjectRoles_keys[of "[0xA0]" db_pmc_ann] b
  have 1: "getProjectRoles db_pmc_ann [0xA0] = Inl (BadRequest (js ''projectId required''))" by simp
  from getProjectRoles_keys[of "js ''p1''" db_two_unknown] n n'
  obtain a where a: "getProjectRoles db_two_unknown (js ''p1'') = Inr a"
    "dom a = set ROLE_CATALOG
       \<union> set [mRole m. m \<leftarrow> members db_two_unknown,
                mProjectId m = js ''p1'' \<and> mRole m \<noteq> [] \<and> mRole m \<noteq> js ''__proto__'']"
    "\<forall>r\<in>set ROLE_CATALOG.
       (\<forall>m\<in>set (members db_two_unknown). mProjectId m = js ''p1'' \<longrightarrow> mRole m \<noteq> r) \<longrightarrow> a r = Some None"
    by force
  from a(3) c f have "a (js ''Architect'') = Some None" by blast
  with a(1) a(2) s
  have 2: "\<exists>a. getProjectRoles db_two_unknown (js ''p1'') = Inr a
         \<and> dom a = set ROLE_CATALOG \<union> {js ''NotARole''} \<and> a (js ''Architect'') = Some None"
    by simp
  from getProjectRoles_keys[of "js ''p1''" db_proto_role] n n'
  obtain a2 where a2: "getProjectRoles db_proto_role (js ''p1'') = Inr a2"
    "dom a2 = set ROLE_CATALOG
       \<union> set [mRole m. m \<leftarrow> members db_proto_role,
                mProjectId m = js ''p1'' \<and> mRole m \<noteq> [] \<and> mRole m \<noteq> js ''__proto__'']"
    by force
  from a2 s2 have 3: "\<exists>a. getProjectRoles db_proto_role (js ''p1'') = Inr a \<and> dom a = set ROLE_CATALOG"
    by blast
  from b 1 n' 2 3 show ?thesis by simp
qed

text \<open>
  C4 as the specification states it fails: with a record whose role is outside the catalog,
  the mapping read for the project has that role as a key.
\<close>

theorem getProjectRoles_keys_counterexample:
  "\<not> isl (getProjectRoles db_two_unknown (js ''p1''))
   \<and> dom (projr (getProjectRoles db_two_unknown (js ''p1''))) \<noteq> set ROLE_CATALOG"
proof -
  have e: "\<not> isl (getProjectRoles db_two_unknown (js ''p1''))
           \<and> projr (getProjectRoles db_two_unknown (js ''p1'')) (js ''NotARole'') = Some (Some (js ''u1''))"
    by code_simp
  have c: "js ''NotARole'' \<notin> set ROLE_CATALOG" by code_simp
  from e have "js ''NotARole'' \<in> dom (projr (getProjectRoles db_two_unknown (js ''p1'')))" by auto
  with c e show ?thesis by auto
qed

lemma put_rows_last:
  "filter (\<lambda>m. mRole m = r) items \<noteq> [] \<Longrightarrow> r \<noteq> [] \<Longrightarrow> r \<noteq> js ''__proto__'' \<Longrightarrow>
   foldl put_row a items r = Some (Some (mUserId (last (filter (\<lambda>m. mRole m = r) items))))"
proof (induction items arbitrary: a rule: rev_induct)
  case Nil
  then show ?case by simp
next
  case (snoc x xs)
  show ?case
  proof (cases "mRole x = r")
    case True
    then show ?thesis using snoc.prems by (simp add: put_row_def)
  next
    case False
    then have "filter (\<lambda>m. mRole m = r) xs \<noteq> []" using snoc.prems by simp
    from snoc.IH[OF this snoc.prems(2) snoc.prems(3)] False show ?thesis by (simp add: put_row_def)
  qed
qed

lemma sorted_filter_hd_least:
  "sorted (map f ys) \<Longrightarrow> m \<in> set ys \<Longrightarrow> P m \<Longrightarrow> f (hd (filter P ys)) \<le> f m"
  by (induction ys) auto

lemma oldest_is_hd:
  assumes "sorted (map f ys)" "m \<in> set ys" "P m"
    and "\<forall>m'\<in>set ys. P m' \<and> m' \<noteq> m \<longrightarrow> f m < (f m' :: nat)"
  shows "hd (filter P ys) = m"
proof -
  have ne: "filter P ys \<noteq> []" using assms(2,3) by (auto simp: filter_empty_conv)
  then have "hd (filter P ys) \<in> set (filter P ys)" by (rule hd_in_set)
  then have h: "hd (filter P ys) \<in> set ys" "P (hd (filter P ys))" by auto
  have "f (hd (filter P ys)) \<le> f m" using assms(1,2,3) by (rule sorted_filter_hd_least)
  with h assms(4) show ?thesis by force
qed

text \<open>
  C6, as the code has it. The rows are listed newest first and each row overwrites the entry
  of its role, so the last row of a role decides: when a project holds several records for a
  role, the read reports the user of the record created first (the oldest one), not of the
  most recent one. This holds for every role but the empty one and \<open>__proto__\<close>, for which
  the read writes no entry. The read returns no database: \<open>listAssignments\<close> and
  \<open>getProjectRoles\<close> only read.
\<close>

theorem getProjectRoles_reports_oldest:
  assumes "trim pid \<noteq> []" and "r \<noteq> []" and "r \<noteq> js ''__proto__''"
    and "m \<in> set (members d)" and "mProjectId m = trim pid" and "mRole m = r"
    and "\<forall>m'\<in>set (members d). mProjectId m' = trim pid \<and> mRole m' = r \<and> m' \<noteq> m
           \<longrightarrow> mCreatedAt m < mCreatedAt m'"
  shows "\<exists>a. getProjectRoles d pid = Inr a \<and> a r = Some (Some (mUserId m))"
proof -
  let ?ys = "sort_key mCreatedAt (filter (\<lambda>m. mProjectId m = trim pid) (members d))"
  let ?P = "\<lambda>m. mRole m = r"
  have items: "projectMember_findMany d (trim pid) = rev ?ys"
    by (simp add: projectMember_findMany_def orderBy_desc_def)
  have s: "sorted (map mCreatedAt ?ys)" by simp
  have mem: "m \<in> set ?ys" using assms(4,5) by simp
  have least: "\<forall>m'\<in>set ?ys. ?P m' \<and> m' \<noteq> m \<longrightarrow> mCreatedAt m < mCreatedAt m'"
    using assms(7) by simp
  have hd: "hd (filter ?P ?ys) = m"
    using s mem assms(6) least by (rule oldest_is_hd)
  have ne: "filter ?P ?ys \<noteq> []" using mem assms(6) by (auto simp: filter_empty_conv)
  have "last (filter ?P (rev ?ys)) = m"
    using hd ne by (simp add: rev_filter[symmetric] last_rev)
  moreover have "filter ?P (rev ?ys) \<noteq> []" using ne by (simp add: rev_filter[symmetric])
  ultimately have "foldl put_row init_roles (rev ?ys) r = Some (Some (mUserId m))"
    using put_rows_last[of r "rev ?ys" init_roles] assms(2,3) by simp
  then show ?thesis using getProjectRoles_nonblank[OF assms(1), of d] items by simp
qed

theorem getProjectRoles_reports_oldest_witness:
  "\<exists>a. getProjectRoles db_two_pmc (js ''p1'') = Inr a \<and> a (js ''PMC'') = Some (Some (js ''u1''))"
proof -
  let ?m = "\<lparr> mId = js ''m1'', mProjectId = js ''p1'', mUserId = js ''u1'', mRole = js ''PMC'',
              mCreatedAt = 2 \<rparr>"
  have h: "trim (js ''p1'') \<noteq> []" "js ''PMC'' \<noteq> []" "js ''PMC'' \<noteq> js ''__proto__''"
    "?m \<in> set (members db_two_pmc)" "mProjectId ?m = trim (js ''p1'')" "mRole ?m = js ''PMC''"
    "\<forall>m'\<in>set (members db_two_pmc). mProjectId m' = trim (js ''p1'') \<and> mRole m' = js ''PMC'' \<and> m' \<noteq> ?m
           \<longrightarrow> mCreatedAt ?m < mCreatedAt m'"
    by code_simp+
  have "\<exists>a. getProjectRoles db_two_pmc (js ''p1'') = Inr a \<and> a (js ''PMC'') = Some (Some (mUserId ?m))"
    using h by (rule getProjectRoles_reports_oldest)
  then show ?thesis by simp
qed

text \<open>
  C6 as the specification states it fails: with Bob's PMC record created after Ann's, the
  most recently created record, the first one listed, holds Bob, and the read reports Ann.
\<close>

theorem getProjectRoles_most_recent_counterexample:
  "mRole (hd (projectMember_findMany db_two_pmc (js ''p1''))) = js ''PMC''
   \<and> mUserId (hd (projectMember_findMany db_two_pmc (js ''p1''))) = js ''u2''
   \<and> \<not> isl (getProjectRoles db_two_pmc (js ''p1''))
   \<and> projr (getProjectRoles db_two_pmc (js ''p1'')) (js ''PMC'') = Some (Some (js ''u1''))"
  by code_simp

section \<open>Single assignment\<close>

text \<open>
  C8, as the code has it. \<open>assign\<close> answers \<open>projectId, userId, role required\<close> when one
  of the three fields is blank after trimming; otherwise \<open>Invalid projectId\<close> when the
  trimmed project id does not resolve, and otherwise \<open>Invalid userId\<close> when the trimmed user
  id does not resolve. In each of these cases the database is left as it was. The role is
  not compared with the catalog: with non-blank fields and resolving ids the record is
  created whatever the role, and every existing record is kept.
\<close>

theorem assign_errors:
  "(trim (projectId dto) = [] \<or> trim (userId dto) = [] \<or> trim (role dto) = []
      \<longrightarrow> assign d dto = (Inl (BadRequest (js ''projectId, userId, role required'')), d))
   \<and> (trim (projectId dto) \<noteq> [] \<and> trim (userId dto) \<noteq> [] \<and> trim (role dto) \<noteq> []
        \<and> trim (projectId dto) \<notin> set (projects d)
      \<longrightarrow> assign d dto = (Inl (BadRequest (js ''Invalid projectId'')), d))
   \<and> (trim (projectId dto) \<noteq> [] \<and> trim (userId dto) \<noteq> [] \<and> trim (role dto) \<noteq> []
        \<and> trim (projectId dto) \<in> set (projects d) \<and> trim (userId dto) \<notin> uId ` set (users d)
      \<longrightarrow> assign d dto = (Inl (BadRequest (js ''Invalid userId'')), d))
   \<and> (trim (projectId dto) \<noteq> [] \<and> trim (userId dto) \<noteq> [] \<and> trim (role dto) \<noteq> []
        \<and> trim (projectId dto) \<in> set (projects d) \<and> trim (userId dto) \<in> uId ` set (users d)
      \<longrightarrow> (\<exists>m. assign d dto = (Inr m, d\<lparr> members := m # members d, clock := Suc (clock d) \<rparr>)
               \<and> mProjectId m = trim (projectId dto) \<and> mUserId m = trim (userId dto)
               \<and> mRole m = trim (role dto) \<and> mCreatedAt m = clock d))"
  by (simp add: assign_cases Let_def)

theorem assign_errors_witness:
  "trim [0xA0] = []
   \<and> assign db_empty \<lparr> projectId = js ''p1'', userId = [0xA0], role = js ''PMC'' \<rparr>
       = (Inl (BadRequest (js ''projectId, userId, role required'')), db_empty)
   \<and> js ''p9'' \<notin> set (projects db_empty)
   \<and> assign db_empty \<lparr> projectId = js ''p9'', userId = js ''ghost'', role = js ''PMC'' \<rparr>
       = (Inl (BadRequest (js ''Invalid projectId'')), db_empty)
   \<and> js ''ghost'' \<notin> uId ` set (users db_empty)
   \<and> assign db_empty \<lparr> projectId = js ''p1'', userId = js ''ghost'', role = js ''PMC'' \<rparr>
       = (Inl (BadRequest (js ''Invalid userId'')), db_empty)
   \<and> js ''NotARole'' \<notin> set ROLE_CATALOG
   \<and> (\<exists>m. assign db_empty \<lparr> projectId = js ''p1'', userId = js ''u1'', role = js ''NotARole'' \<rparr>
            = (Inr m, db_empty\<lparr> members := m # members db_empty, clock := Suc (clock db_empty) \<rparr>)
          \<and> mRole m = js ''NotARole'')"
proof -
  have t: "trim [0xA0] = []" "trim (js ''p1'') = js ''p1''" "trim (js ''p9'') = js ''p9''"
    "trim (js ''PMC'') = js ''PMC''" "trim (js ''ghost'') = js ''ghost''"
    "trim (js ''u1'') = js ''u1''" "trim (js ''NotARole'') = js ''NotARole''"
    by code_simp+
  have ne: "js ''p1'' \<noteq> []" "js ''p9'' \<noteq> []" "js ''PMC'' \<noteq> []" "js ''ghost'' \<noteq> []"
    "js ''u1'' \<noteq> []" "js ''NotARole'' \<noteq> []"
    by code_simp+
  have g: "js ''ghost'' \<notin> uId ` set (users db_empty)" "js ''u1'' \<in> uId ` set (users db_empty)"
     "js ''p1'' \<in> set (projects db_empty)" "js ''p9'' \<notin> set (projects db_empty)"
    by code_simp+
  have c: "js ''NotARole'' \<notin> set ROLE_CATALOG" by code_simp
  from assign_errors[of "\<lparr> projectId = js ''p1'', userId = [0xA0], role = js ''PMC'' \<rparr>" db_empty] t
  have 1: "assign db_empty \<lparr> projectId = js ''p1'', userId = [0xA0], role = js ''PMC'' \<rparr>
       = (Inl (BadRequest (js ''projectId, userId, role required'')), db_empty)" by simp
  from assign_errors[of "\<lparr> projectId = js ''p9'', userId = js ''ghost'', role = js ''PMC'' \<rparr>" db_empty] t ne g
  have 2: "assign db_empty \<lparr> projectId = js ''p9'', userId = js ''ghost'', role = js ''PMC'' \<rparr>
       = (Inl (BadRequest (js ''Invalid projectId'')), db_empty)" by simp
  from assign_errors[of "\<lparr> projectId = js ''p1'', userId = js ''ghost'', role = js ''PMC'' \<rparr>" db_empty] t ne g
  have 3: "assign db_empty \<lparr> projectId = js ''p1'', userId = js ''ghost'', role = js ''PMC'' \<rparr>
       = (Inl (BadRequest (js ''Invalid userId'')), db_empty)" by simp
  from assign_errors[of "\<lparr> projectId = js ''p1'', userId = js ''u1'', role = js ''NotARole'' \<rparr>" db_empty] t ne g
  have 4: "\<exists>m. assign db_empty \<lparr> projectId = js ''p1'', userId = js ''u1'', role = js ''NotARole'' \<rparr>
            = (Inr m, db_empty\<lparr> members := m # members db_empty, clock := Suc (clock db_empty) \<rparr>)
          \<and> mRole m = js ''NotARole''" by auto
  from t(1) 1 g(4) 2 g(1) 3 c 4 show ?thesis by blast
qed

text \<open>
  C8 as the specification states it fails: a role outside the catalog is accepted and the
  record is created.
\<close>

theorem assign_unknown_role_counterexample:
  "js ''NotARole'' \<notin> set ROLE_CATALOG
   \<and> fst (assign db_empty \<lparr> projectId = js ''p1'', userId = js ''u1'', role = js ''NotARole'' \<rparr>)
       = Inr \<lparr> mId = js ''c'', mProjectId = js ''p1'', mUserId = js ''u1'', mRole = js ''NotARole'',
               mCreatedAt = 2 \<rparr>
   \<and> map mRole (members (snd (assign db_empty
          \<lparr> projectId = js ''p1'', userId = js ''u1'', role = js ''NotARole'' \<rparr>))) = [js ''NotARole'']"
  by code_simp

section \<open>Creating and searching users\<close>

lemma truthy_normStr: "\<not> truthy v \<Longrightarrow> normStr v = []"
  by (cases v) (auto simp: truthy_def normStr_def trim_def)

lemma normEmail_None: "(normEmail E v = None) = (normStr v = [])"
  by (simp add: normEmail_def Let_def)

lemma truthy_normEmail:
  "case_mappings_keep_empty E \<Longrightarrow> truthy (normEmail E v) = (normStr v \<noteq> [])"
  by (simp add: normEmail_def Let_def truthy_def case_mappings_keep_empty_def)

lemma truthy_normPhone: "truthy (normPhone v) = (filter is_digit (normStr v) \<noteq> [])"
  by (auto simp: normPhone_def Let_def truthy_def)

lemma normPhone_None: "(normPhone v = None) = (filter is_digit (normStr v) = [])"
  by (auto simp: normPhone_def Let_def)

lemma js_Cons: "js (c # s) = of_char c # js s"
  by (simp add: js_def)

lemma createUser_handler_required:
  assumes "case_mappings_keep_empty E"
    and "normStr (dto_code dto) = [] \<or> normStr (dto_role dto) = [] \<or> normStr (dto_name dto) = []"
  shows "createUser_handler E d dto = (Inl (BadRequest (js ''code, role and name are required'')), d)"
  using assms
  by (auto simp: createUser_handler_def createUser_def Let_def case_mappings_keep_empty_def)

lemma createUser_handler_service:
  assumes "normStr (dto_code dto) \<noteq> []" "normStr (dto_role dto) \<noteq> []" "normStr (dto_name dto) \<noteq> []"
  shows "createUser_handler E d dto = createUser E d dto"
  using assms truthy_normStr by (auto simp: createUser_handler_def)

lemma createUser_blank_contact:
  assumes "case_mappings_keep_empty E"
    and "normEmail E (dto_email dto) = None" "normPhone (dto_phone dto) = None"
  shows "createUser_handler E d dto
     = (Inl (BadRequest
          (if normStr (dto_code dto) = [] \<or> normStr (dto_role dto) = [] \<or> normStr (dto_name dto) = []
           then js ''code, role and name are required''
           else js ''Either email or phone is required'')), d)"
proof (cases "normStr (dto_code dto) = [] \<or> normStr (dto_role dto) = [] \<or> normStr (dto_name dto) = []")
  case True
  then show ?thesis using createUser_handler_required[OF assms(1) True] by simp
next
  case False
  then have "createUser_handler E d dto = createUser E d dto"
    using createUser_handler_service by simp
  then show ?thesis using False assms
    by (simp add: createUser_def Let_def truthy_def case_mappings_keep_empty_def)
qed

lemma createUser_contact_ok:
  assumes "case_mappings_keep_empty E"
    and "normStr (dto_email dto) \<noteq> [] \<or> filter is_digit (normStr (dto_phone dto)) \<noteq> []"
  shows "fst (createUser_handler E d dto) \<noteq> Inl (BadRequest (js ''Either email or phone is required''))"
proof -
  have t: "truthy (normEmail E (dto_email dto)) \<or> truthy (normPhone (dto_phone dto))"
    using assms by (simp add: truthy_normEmail truthy_normPhone)
  have m: "js ''code, role and name are required'' \<noteq> js ''Either email or phone is required''"
    "\<And>x. js ''User code '' @ x \<noteq> js ''Either email or phone is required''"
    "\<And>x. js ''Email '' @ x \<noteq> js ''Either email or phone is required''"
    "\<And>x. js ''Phone '' @ x \<noteq> js ''Either email or phone is required''"
    by (simp_all add: js_Cons)
  show ?thesis using t m
    by (auto simp: createUser_handler_def createUser_def Let_def user_create_def
        simp del: append_assoc split: prod.splits)
qed

lemma createUser_created:
  assumes "case_mappings_keep_empty E"
    and "normStr (dto_code dto) \<noteq> []" "normStr (dto_role dto) \<noteq> []" "normStr (dto_name dto) \<noteq> []"
    and "normStr (dto_email dto) \<noteq> [] \<or> filter is_digit (normStr (dto_phone dto)) \<noteq> []"
    and "\<forall>v\<in>set (users d). uCode v \<noteq> toUpperCase E (normStr (dto_code dto))
            \<and> (normEmail E (dto_email dto) = None \<or> uEmail v \<noteq> normEmail E (dto_email dto))
            \<and> (normPhone (dto_phone dto) = None \<or> uPhone v \<noteq> normPhone (dto_phone dto))"
  shows "\<exists>u. createUser_handler E d dto = (Inr u, d\<lparr> users := u # users d, clock := Suc (clock d) \<rparr>)
            \<and> uCode u = toUpperCase E (normStr (dto_code dto)) \<and> uRole u = normStr (dto_role dto)
            \<and> uName u = normStr (dto_name dto) \<and> uEmail u = normEmail E (dto_email dto)
            \<and> uPhone u = normPhone (dto_phone dto) \<and> uCreatedAt u = clock d"
proof -
  have h: "createUser_handler E d dto = createUser E d dto"
    using assms(2,3,4) by (rule createUser_handler_service)
  have t: "truthy (normEmail E (dto_email dto)) \<or> truthy (normPhone (dto_phone dto))"
    using assms(1,5) by (simp add: truthy_normEmail truthy_normPhone)
  have u: "toUpperCase E (normStr (dto_code dto)) \<noteq> []"
    using assms(1,2) by (simp add: case_mappings_keep_empty_def)
  have c: "\<not> list_ex (\<lambda>v. uCode v = toUpperCase E (normStr (dto_code dto))) (users d)"
    "\<not> (truthy (normEmail E (dto_email dto)) \<and> list_ex (\<lambda>v. uEmail v = normEmail E (dto_email dto)) (users d))"
    "\<not> (truthy (normPhone (dto_phone dto)) \<and> list_ex (\<lambda>v. uPhone v = normPhone (dto_phone dto)) (users d))"
    using assms(6) by (auto simp: list_ex_iff truthy_def)
  show ?thesis unfolding h using t u c assms(3,4)
    by (simp add: createUser_def Let_def user_create_def)
qed

text \<open>
  C9, as the code has it, for case mappings that keep only the empty string empty. When the
  email and the phone of the request both normalise to \<open>null\<close>, user creation fails with a
  validation error and the database is unchanged: the error about code, role and name when
  one of those is blank, the error about the contact otherwise. The contact check is passed
  when the trimmed email is non-empty or the trimmed phone contains a digit; a phone
  without any digit normalises to \<open>null\<close> like a blank one. A request with non-blank code,
  role and name that passes the contact check and repeats no stored code, email or phone
  creates the user.
\<close>

theorem createUser_contact_check:
  assumes "case_mappings_keep_empty E"
  shows
  "(normEmail E (dto_email dto) = None \<and> normPhone (dto_phone dto) = None
      \<longrightarrow> createUser_handler E d dto
            = (Inl (BadRequest
                 (if normStr (dto_code dto) = [] \<or> normStr (dto_role dto) = []
                     \<or> normStr (dto_name dto) = []
                  then js ''code, role and name are required''
                  else js ''Either email or phone is required'')), d))
   \<and> (normStr (dto_email dto) \<noteq> [] \<or> filter is_digit (normStr (dto_phone dto)) \<noteq> []
      \<longrightarrow> fst (createUser_handler E d dto)
            \<noteq> Inl (BadRequest (js ''Either email or phone is required'')))
   \<and> (normStr (dto_code dto) \<noteq> [] \<and> normStr (dto_role dto) \<noteq> [] \<and> normStr (dto_name dto) \<noteq> []
        \<and> (normStr (dto_email dto) \<noteq> [] \<or> filter is_digit (normStr (dto_phone dto)) \<noteq> [])
        \<and> (\<forall>v\<in>set (users d). uCode v \<noteq> toUpperCase E (normStr (dto_code dto))
              \<and> (normEmail E (dto_email dto) = None \<or> uEmail v \<noteq> normEmail E (dto_email dto))
              \<and> (normPhone (dto_phone dto) = None \<or> uPhone v \<noteq> normPhone (dto_phone dto)))
      \<longrightarrow> (\<exists>u. createUser_handler E d dto
                   = (Inr u, d\<lparr> users := u # users d, clock := Suc (clock d) \<rparr>)
               \<and> uCode u = toUpperCase E (normStr (dto_code dto))
               \<and> uRole u = normStr (dto_role dto) \<and> uName u = normStr (dto_name dto)
               \<and> uEmail u = normEmail E (dto_email dto) \<and> uPhone u = normPhone (dto_phone dto)
               \<and> uCreatedAt u = clock d))"
  using createUser_blank_contact[OF assms, of dto d] createUser_contact_ok[OF assms, of dto d]
    createUser_created[OF assms, of dto d]
  by blast

lemma ascii_host_keeps_empty: "case_mappings_keep_empty ascii_host"
  by (simp add: case_mappings_keep_empty_def ascii_host_def)

theorem createUser_contact_check_witness:
  "case_mappings_keep_empty ascii_host
   \<and> normEmail ascii_host (dto_email dto_nbsp_email) = None
   \<and> normPhone (dto_phone dto_nbsp_email) = None
   \<and> createUser_handler ascii_host db_empty dto_nbsp_email
       = (Inl (BadRequest (js ''Either email or phone is required'')), db_empty)
   \<and> normStr (dto_email dto_with_email) \<noteq> []
   \<and> fst (createUser_handler ascii_host db_empty dto_with_email)
       \<noteq> Inl (BadRequest (js ''Either email or phone is required''))
   \<and> (\<exists>u. createUser_handler ascii_host db_empty dto_with_email
             = (Inr u, db_empty\<lparr> users := u # users db_empty, clock := Suc (clock db_empty) \<rparr>)
          \<and> uCode u = js ''U3'' \<and> uEmail u = Some (js ''cy@x.org''))"
proof -
  note k = ascii_host_keeps_empty
  have h1: "normEmail ascii_host (dto_email dto_nbsp_email) = None"
    "normPhone (dto_phone dto_nbsp_email) = None"
    by code_simp+
  have r1: "\<not> (normStr (dto_code dto_nbsp_email) = [] \<or> normStr (dto_role dto_nbsp_email) = []
              \<or> normStr (dto_name dto_nbsp_email) = [])"
    by code_simp
  have h2: "normStr (dto_email dto_with_email) \<noteq> []" by code_simp
  have r2: "normStr (dto_code dto_with_email) \<noteq> []" "normStr (dto_role dto_with_email) \<noteq> []"
    "normStr (dto_name dto_with_email) \<noteq> []"
    by code_simp+
  have f2: "\<forall>v\<in>set (users db_empty). uCode v \<noteq> toUpperCase ascii_host (normStr (dto_code dto_with_email))
              \<and> (normEmail ascii_host (dto_email dto_with_email) = None
                  \<or> uEmail v \<noteq> normEmail ascii_host (dto_email dto_with_email))
              \<and> (normPhone (dto_phone dto_with_email) = None
                  \<or> uPhone v \<noteq> normPhone (dto_phone dto_with_email))"
    by code_simp
  have v2: "toUpperCase ascii_host (normStr (dto_code dto_with_email)) = js ''U3''"
    "normEmail ascii_host (dto_email dto_with_email) = Some (js ''cy@x.org'')"
    by code_simp+
  from createUser_contact_check[OF k, of dto_nbsp_email db_empty] h1 r1
  have 1: "createUser_handler ascii_host db_empty dto_nbsp_email
       = (Inl (BadRequest (js ''Either email or phone is required'')), db_empty)"
    by simp
  from createUser_contact_check[OF k, of dto_with_email db_empty] h2
  have 2: "fst (createUser_handler ascii_host db_empty dto_with_email)
       \<noteq> Inl (BadRequest (js ''Either email or phone is required''))"
    by blast
  from createUser_contact_check[OF k, of dto_with_email db_empty] h2 r2 f2
  have "\<exists>u. createUser_handler ascii_host db_empty dto_with_email
             = (Inr u, db_empty\<lparr> users := u # users db_empty, clock := Suc (clock db_empty) \<rparr>)
          \<and> uCode u = toUpperCase ascii_host (normStr (dto_code dto_with_email))
          \<and> uEmail u = normEmail ascii_host (dto_email dto_with_email)"
    by blast
  then have 3: "\<exists>u. createUser_handler ascii_host db_empty dto_with_email
             = (Inr u, db_empty\<lparr> users := u # users db_empty, clock := Suc (clock db_empty) \<rparr>)
          \<and> uCode u = js ''U3'' \<and> uEmail u = Some (js ''cy@x.org'')"
    unfolding v2 .
  from k h1 1 h2 2 3 show ?thesis by blast
qed

text \<open>
  C9 as the specification states it fails: a phone that is not blank but has no digit does
  not pass the contact check.
\<close>

theorem createUser_nonblank_phone_counterexample:
  "normStr (dto_phone dto_phone_abc) \<noteq> []
   \<and> createUser_handler ascii_host db_empty dto_phone_abc
       = (Inl (BadRequest (js ''Either email or phone is required'')), db_empty)"
  by code_simp

lemma handler_query: "normStr (Some (if truthy q then the q else [])) = normStr q"
  by (cases q) (auto simp: truthy_def normStr_def)

lemma searchUsers_handler_eq: "searchUsers_handler E d q = searchUsers E d q"
  by (simp add: searchUsers_handler_def searchUsers_def handler_query)

lemma user_matches_iff:
  "user_matches E q u =
     ((\<exists>e. uEmail u = Some e \<and> sublist (caseFold E q) (caseFold E e))
      \<or> sublist (caseFold E q) (caseFold E (uName u))
      \<or> sublist (caseFold E q) (caseFold E (uCode u))
      \<or> sublist (caseFold E q) (caseFold E (uRole u))
      \<or> (\<exists>p. uPhone u = Some p \<and> sublist q p))"
  by (auto simp: user_matches_def contains_insensitive_def split: option.splits)

lemma take_desc_sorted:
  "sorted (rev (map f (take n (orderBy_desc f xs))))"
proof -
  have "rev (map f (take n (rev (sort_key f xs)))) = map f (drop (length xs - n) (sort_key f xs))"
    by (simp add: take_rev rev_map)
  moreover have "sorted (map f (drop (length xs - n) (sort_key f xs)))"
    by (simp add: drop_map[symmetric] sorted_wrt_drop del: drop_map)
  ultimately show ?thesis by (simp add: orderBy_desc_def)
qed

lemma take_desc_recent:
  assumes "u \<in> set xs" "u \<notin> set (take n (orderBy_desc f xs))" "v \<in> set (take n (orderBy_desc f xs))"
  shows "f u \<le> (f v :: nat)"
proof -
  let ?ys = "sort_key f xs"
  let ?k = "length xs - n"
  have t: "set (take n (orderBy_desc f xs)) = set (drop ?k ?ys)"
    by (simp add: orderBy_desc_def take_rev)
  have "set ?ys = set (take ?k ?ys) \<union> set (drop ?k ?ys)"
    by (metis append_take_drop_id set_append)
  moreover have "u \<in> set ?ys" using assms(1) by simp
  ultimately have u: "u \<in> set (take ?k ?ys)" using assms(2) t by blast
  have v: "v \<in> set (drop ?k ?ys)" using assms(3) t by simp
  have "sorted (map f (take ?k ?ys @ drop ?k ?ys))" by simp
  then have "\<forall>a\<in>set (take ?k ?ys). \<forall>b\<in>set (drop ?k ?ys). f a \<le> f b"
    unfolding map_append sorted_append by auto
  with u v show ?thesis by blast
qed

text \<open>
  C10. A query that is missing, empty or blank after trimming does not fail: the search
  returns the users ordered by \<open>createdAt\<close> descending, cut to 50, so every user left out
  was created no later than every user returned. A non-blank query returns the users that
  match the trimmed query (in the email, name, code or role after case folding, or in the
  phone as it is), ordered by name ascending and cut to 50: every user returned matches, and
  when fewer than 50 users are returned, every matching user is among them.
\<close>

theorem searchUsers_blank_or_query:
  "(normStr q = [] \<longrightarrow>
      searchUsers_handler E d q = take 50 (orderBy_desc uCreatedAt (users d))
      \<and> length (searchUsers_handler E d q) = min 50 (length (users d))
      \<and> set (searchUsers_handler E d q) \<subseteq> set (users d)
      \<and> sorted (rev (map uCreatedAt (searchUsers_handler E d q)))
      \<and> (\<forall>u\<in>set (users d). \<forall>v\<in>set (searchUsers_handler E d q).
            u \<notin> set (searchUsers_handler E d q) \<longrightarrow> uCreatedAt u \<le> uCreatedAt v))
   \<and> (normStr q \<noteq> [] \<longrightarrow>
      searchUsers_handler E d q
        = take 50 (sort_key uName
            (filter (\<lambda>u. (\<exists>e. uEmail u = Some e \<and> sublist (caseFold E (normStr q)) (caseFold E e))
                        \<or> sublist (caseFold E (normStr q)) (caseFold E (uName u))
                        \<or> sublist (caseFold E (normStr q)) (caseFold E (uCode u))
                        \<or> sublist (caseFold E (normStr q)) (caseFold E (uRole u))
                        \<or> (\<exists>p. uPhone u = Some p \<and> sublist (normStr q) p))
               (users d)))
      \<and> length (searchUsers_handler E d q) \<le> 50
      \<and> sorted (map uName (searchUsers_handler E d q))
      \<and> (\<forall>u\<in>set (searchUsers_handler E d q). u \<in> set (users d)
            \<and> ((\<exists>e. uEmail u = Some e \<and> sublist (caseFold E (normStr q)) (caseFold E e))
                \<or> sublist (caseFold E (normStr q)) (caseFold E (uName u))
                \<or> sublist (caseFold E (normStr q)) (caseFold E (uCode u))
                \<or> sublist (caseFold E (normStr q)) (caseFold E (uRole u))
                \<or> (\<exists>p. uPhone u = Some p \<and> sublist (normStr q) p)))
      \<and> (\<forall>u\<in>set (users d).
            length (searchUsers_handler E d q) < 50
            \<and> ((\<exists>e. uEmail u = Some e \<and> sublist (caseFold E (normStr q)) (caseFold E e))
                \<or> sublist (caseFold E (normStr q)) (caseFold E (uName u))
                \<or> sublist (caseFold E (normStr q)) (caseFold E (uCode u))
                \<or> sublist (caseFold E (normStr q)) (caseFold E (uRole u))
                \<or> (\<exists>p. uPhone u = Some p \<and> sublist (normStr q) p))
            \<longrightarrow> u \<in> set (searchUsers_handler E d q)))"
proof (intro conjI impI)
  assume b: "normStr q = []"
  then show e: "searchUsers_handler E d q = take 50 (orderBy_desc uCreatedAt (users d))"
    by (simp add: searchUsers_handler_eq searchUsers_def)
  show "length (searchUsers_handler E d q) = min 50 (length (users d))"
    unfolding e by (simp add: orderBy_desc_def min.commute)
  show "set (searchUsers_handler E d q) \<subseteq> set (users d)"
    unfolding e using set_take_subset[of 50 "orderBy_desc uCreatedAt (users d)"]
    by (simp add: orderBy_desc_def)
  show "sorted (rev (map uCreatedAt (searchUsers_handler E d q)))"
    unfolding e by (rule take_desc_sorted)
  show "\<forall>u\<in>set (users d). \<forall>v\<in>set (searchUsers_handler E d q).
            u \<notin> set (searchUsers_handler E d q) \<longrightarrow> uCreatedAt u \<le> uCreatedAt v"
    unfolding e using take_desc_recent[of _ "users d" 50 uCreatedAt] by blast
next
  assume n: "normStr q \<noteq> []"
  let ?M = "user_matches E (normStr q)"
  have e: "searchUsers_handler E d q = take 50 (sort_key uName (filter ?M (users d)))"
    using n by (simp add: searchUsers_handler_eq searchUsers_def)
  have M: "?M = (\<lambda>u. (\<exists>e. uEmail u = Some e \<and> sublist (caseFold E (normStr q)) (caseFold E e))
                        \<or> sublist (caseFold E (normStr q)) (caseFold E (uName u))
                        \<or> sublist (caseFold E (normStr q)) (caseFold E (uCode u))
                        \<or> sublist (caseFold E (normStr q)) (caseFold E (uRole u))
                        \<or> (\<exists>p. uPhone u = Some p \<and> sublist (normStr q) p))"
    by (rule ext) (rule user_matches_iff)
  show "searchUsers_handler E d q
        = take 50 (sort_key uName
            (filter (\<lambda>u. (\<exists>e. uEmail u = Some e \<and> sublist (caseFold E (normStr q)) (caseFold E e))
                        \<or> sublist (caseFold E (normStr q)) (caseFold E (uName u))
                        \<or> sublist (caseFold E (normStr q)) (caseFold E (uCode u))
                        \<or> sublist (caseFold E (normStr q)) (caseFold E (uRole u))
                        \<or> (\<exists>p. uPhone u = Some p \<and> sublist (normStr q) p))
               (users d)))"
    using e unfolding M .
  show "length (searchUsers_handler E d q) \<le> 50" unfolding e by simp
  show "sorted (map uName (searchUsers_handler E d q))"
    unfolding e by (simp add: take_map[symmetric] sorted_wrt_take del: take_map)
  have sub: "set (searchUsers_handler E d q) \<subseteq> {u \<in> set (users d). ?M u}"
    unfolding e using set_take_subset[of 50 "sort_key uName (filter ?M (users d))"] by auto
  then show "\<forall>u\<in>set (searchUsers_handler E d q). u \<in> set (users d)
            \<and> ((\<exists>e. uEmail u = Some e \<and> sublist (caseFold E (normStr q)) (caseFold E e))
                \<or> sublist (caseFold E (normStr q)) (caseFold E (uName u))
                \<or> sublist (caseFold E (normStr q)) (caseFold E (uCode u))
                \<or> sublist (caseFold E (normStr q)) (caseFold E (uRole u))
                \<or> (\<exists>p. uPhone u = Some p \<and> sublist (normStr q) p))"
    using user_matches_iff[of E "normStr q"] by blast
  show "\<forall>u\<in>set (users d).
            length (searchUsers_handler E d q) < 50
            \<and> ((\<exists>e. uEmail u = Some e \<and> sublist (caseFold E (normStr q)) (caseFold E e))
                \<or> sublist (caseFold E (normStr q)) (caseFold E (uName u))
                \<or> sublist (caseFold E (normStr q)) (caseFold E (uCode u))
                \<or> sublist (caseFold E (normStr q)) (caseFold E (uRole u))
                \<or> (\<exists>p. uPhone u = Some p \<and> sublist (normStr q) p))
            \<longrightarrow> u \<in> set (searchUsers_handler E d q)"
  proof (intro ballI impI)
    fix u assume u: "u \<in> set (users d)"
      and h: "length (searchUsers_handler E d q) < 50
            \<and> ((\<exists>e. uEmail u = Some e \<and> sublist (caseFold E (normStr q)) (caseFold E e))
                \<or> sublist (caseFold E (normStr q)) (caseFold E (uName u))
                \<or> sublist (caseFold E (normStr q)) (caseFold E (uCode u))
                \<or> sublist (caseFold E (normStr q)) (caseFold E (uRole u))
                \<or> (\<exists>p. uPhone u = Some p \<and> sublist (normStr q) p))"
    then have "?M u" using user_matches_iff[of E "normStr q" u] by blast
    moreover have "take 50 (sort_key uName (filter ?M (users d))) = sort_key uName (filter ?M (users d))"
      using h unfolding e by (simp add: min_def split: if_splits)
    ultimately show "u \<in> set (searchUsers_handler E d q)" unfolding e using u by simp
  qed
qed

theorem searchUsers_blank_or_query_witness:
  "normStr (Some [0xA0]) = []
   \<and> map uName (searchUsers_handler ascii_host db_empty (Some [0xA0])) = [js ''Bob'', js ''Ann'']
   \<and> normStr (Some (js '' u '')) \<noteq> []
   \<and> map uName (searchUsers_handler ascii_host db_empty (Some (js '' u ''))) = [js ''Ann'', js ''Bob'']
   \<and> normStr (Some (js ''ANN@'')) \<noteq> []
   \<and> map uName (searchUsers_handler ascii_host db_empty (Some (js ''ANN@''))) = [js ''Ann'']
   \<and> sorted (map uName (searchUsers_handler ascii_host db_empty (Some (js '' u ''))))"
proof -
  have h1: "normStr (Some [0xA0]) = []" by code_simp
  have h2: "normStr (Some (js '' u '')) \<noteq> []" by code_simp
  have h3: "normStr (Some (js ''ANN@'')) \<noteq> []" by code_simp
  from searchUsers_blank_or_query[of "Some [0xA0]" ascii_host db_empty] h1
  have "searchUsers_handler ascii_host db_empty (Some [0xA0])
          = take 50 (orderBy_desc uCreatedAt (users db_empty))"
    by blast
  moreover have "map uName (take 50 (orderBy_desc uCreatedAt (users db_empty))) = [js ''Bob'', js ''Ann'']"
    by code_simp
  ultimately have 1: "map uName (searchUsers_handler ascii_host db_empty (Some [0xA0])) = [js ''Bob'', js ''Ann'']"
    by simp
  from searchUsers_blank_or_query[of "Some (js '' u '')" ascii_host db_empty] h2
  have 2: "sorted (map uName (searchUsers_handler ascii_host db_empty (Some (js '' u ''))))" by blast
  have 3: "map uName (searchUsers_handler ascii_host db_empty (Some (js '' u ''))) = [js ''Ann'', js ''Bob'']"
    by code_simp
  have 4: "map uName (searchUsers_handler ascii_host db_empty (Some (js ''ANN@''))) = [js ''Ann'']"
    by code_simp
  from h1 h2 h3 1 2 3 4 show ?thesis by blast
qed

section \<open>The bulk assignment as a list of mutations\<close>

lemma fold_upd_val:
  "foldl (\<lambda>d r. d(r \<mapsto> g r)) b rs r' = (if r' \<in> set rs then Some (g r') else b r')"
  by (induction rs arbitrary: b rule: rev_induct) auto

lemma desired_val:
  "desired a r = (if r \<in> set ROLE_CATALOG then Some (case a r of Some v \<Rightarrow> v | None \<Rightarrow> JNull) else None)"
  by (simp add: desired_def fold_upd_val)

lemma nextUserId_catalog:
  "r \<in> set ROLE_CATALOG \<Longrightarrow> nextUserId (desired a) r = (case a r of Some v \<Rightarrow> v | None \<Rightarrow> JNull)"
  by (simp add: nextUserId_def desired_val)

lemma desired_cong:
  assumes "\<forall>r\<in>set ROLE_CATALOG.
             (case a r of Some v \<Rightarrow> v | None \<Rightarrow> JNull) = (case b r of Some v \<Rightarrow> v | None \<Rightarrow> JNull)"
  shows "desired a = desired b"
  using assms by (auto simp: desired_val fun_eq_iff)

lemma exec_append:
  "exec (xs @ ys) d = (case exec xs d of (Inl e, d') \<Rightarrow> (Inl e, d') | (Inr u, d') \<Rightarrow> exec ys d')"
  by (induction xs arbitrary: d) (auto split: prod.splits sum.splits)

lemma remove_loop_exec:
  "remove_loop des cur d
     = exec (map (\<lambda>entry. Delete (fst (snd entry))) (filter (\<lambda>entry. nextUserId des (fst entry) = JNull) cur)) d"
  by (induction cur arbitrary: d) (auto simp: remove_step_def split: prod.splits sum.splits)

lemma upsert_step_exec:
  "upsert_step pid des cur d r
     = (if needs_assign des cur r then apply_mutation d (assign_call pid des r) else (Inr (), d))"
  by (auto simp: upsert_step_def needs_assign_def assign_call_def Let_def split: jvalue.splits)

lemma upsert_loop_exec:
  "upsert_loop pid des cur rs d = exec (map (assign_call pid des) (filter (needs_assign des cur) rs)) d"
  by (induction rs arbitrary: d) (auto simp: upsert_step_exec split: prod.splits sum.splits)

lemma setProjectRoles_exec:
  "trim pid \<noteq> [] \<Longrightarrow> a (js ''hasOwnProperty'') = None
   \<Longrightarrow> setProjectRoles d pid (Assignments a) = exec (planned d pid a) d"
  by (simp add: setProjectRoles_def listAssignments_def normStr_def Let_def planned_def
      normalize_incoming_def exec_append remove_loop_exec upsert_loop_exec
      split: prod.splits sum.splits)

lemma setProjectRoles_rejected:
  "setProjectRoles d pid NoAssignments = (Inl (BadRequest (js ''assignments object is required'')), d)"
  "trim pid = [] \<Longrightarrow> setProjectRoles d pid NullAssignments = (Inl (BadRequest (js ''projectId required'')), d)"
  "trim pid = [] \<Longrightarrow> setProjectRoles d pid (Assignments a) = (Inl (BadRequest (js ''projectId required'')), d)"
  "trim pid \<noteq> [] \<Longrightarrow> setProjectRoles d pid NullAssignments = (Inl TypeError, d)"
  "trim pid \<noteq> [] \<Longrightarrow> a (js ''hasOwnProperty'') \<noteq> None
     \<Longrightarrow> setProjectRoles d pid (Assignments a) = (Inl TypeError, d)"
  by (auto simp: setProjectRoles_def listAssignments_def normStr_def normalize_incoming_def Let_def)

lemma removeAssignment_fail: "removeAssignment d i = (Inl e, d') \<Longrightarrow> d' = d"
  by (auto simp: removeAssignment_def projectMember_delete_def Let_def split: if_splits)

lemma assign_fail: "assign d dto = (Inl e, d') \<Longrightarrow> d' = d"
  by (auto simp: assign_cases Let_def split: if_splits)

lemma apply_mutation_fail: "apply_mutation d m = (Inl e, d') \<Longrightarrow> d' = d"
  by (cases m) (auto dest: removeAssignment_fail assign_fail split: prod.splits sum.splits)






section \<open>The slot invariant under calls that fill empty slots\<close>

lemma removeAssignment_members:
  "\<exists>P. members (snd (removeAssignment d i)) = filter P (members d)"
proof (cases "fst (removeAssignment d i)")
  case (Inl e)
  then have "snd (removeAssignment d i) = d"
    using removeAssignment_fail[of d i e "snd (removeAssignment d i)"] by (simp add: prod_eq_iff)
  then have "members (snd (removeAssignment d i)) = filter (\<lambda>m. True) (members d)" by simp
  then show ?thesis by blast
next
  case (Inr u)
  then have "members (snd (removeAssignment d i)) = filter (\<lambda>m. mId m \<noteq> trim i) (members d)"
    by (auto simp: removeAssignment_def projectMember_delete_def Let_def normStr_def split: if_splits)
  then show ?thesis by blast
qed

lemma assign_members:
  "members (snd (assign d dto)) = members d
   \<or> (\<exists>m. members (snd (assign d dto)) = m # members d \<and> slot m = (trim (projectId dto), trim (role dto)))"
  by (simp add: assign_cases Let_def slot_def)

lemma assign_call_members:
  "members (snd (apply_mutation d (assign_call pid des r))) = members d
   \<or> (\<exists>m. members (snd (apply_mutation d (assign_call pid des r))) = m # members d
          \<and> slot m = (trim pid, trim r))"
proof (cases "nextUserId des r")
  case (JString u)
  then have "snd (apply_mutation d (assign_call pid des r))
               = snd (assign d \<lparr> projectId = pid, userId = u, role = r \<rparr>)"
    by (simp add: assign_call_def split: prod.splits sum.splits)
  then show ?thesis using assign_members[of d "\<lparr> projectId = pid, userId = u, role = r \<rparr>"] by simp
qed (simp_all add: assign_call_def)

lemma exec_Cons_snd:
  "snd (exec (m # ms) d)
     = (if isl (fst (apply_mutation d m)) then d else snd (exec ms (snd (apply_mutation d m))))"
  by (auto split: prod.splits sum.splits dest: apply_mutation_fail)

lemma exec_append_snd:
  "snd (exec (xs @ ys) d)
     = (if isl (fst (exec xs d)) then snd (exec xs d) else snd (exec ys (snd (exec xs d))))"
  by (auto simp: exec_append split: prod.splits sum.splits)

lemma exec_deletes_members:
  "\<exists>P. members (snd (exec (map (\<lambda>entry. Delete (g entry)) es) d)) = filter P (members d)"
proof (induction es arbitrary: d)
  case Nil
  have "members d = filter (\<lambda>m. True) (members d)" by simp
  then show ?case by (simp del: filter_True) blast
next
  case (Cons e es)
  let ?d1 = "snd (apply_mutation d (Delete (g e)))"
  obtain P where P: "members ?d1 = filter P (members d)"
    using removeAssignment_members[of d "g e"] by auto
  obtain Q where Q: "members (snd (exec (map (\<lambda>entry. Delete (g entry)) es) ?d1)) = filter Q (members ?d1)"
    using Cons.IH[of ?d1] by blast
  show ?case
  proof (cases "isl (fst (apply_mutation d (Delete (g e))))")
    case True
    then have "members (snd (exec (map (\<lambda>entry. Delete (g entry)) (e # es)) d)) = filter (\<lambda>m. True) (members d)"
      by (simp add: exec_Cons_snd del: exec.simps apply_mutation.simps)
    then show ?thesis by blast
  next
    case False
    then have "members (snd (exec (map (\<lambda>entry. Delete (g entry)) (e # es)) d)) = filter (\<lambda>m. P m \<and> Q m) (members d)"
      using P Q by (simp add: exec_Cons_snd del: exec.simps apply_mutation.simps)
    then show ?thesis by blast
  qed
qed

lemma I1_filter: "I1 d \<Longrightarrow> members d' = filter P (members d) \<Longrightarrow> I1 d'"
  by (simp add: I1_def distinct_map_filter)

lemma slot_free_filter: "slot_free d p r \<Longrightarrow> members d' = filter P (members d) \<Longrightarrow> slot_free d' p r"
  by (simp add: slot_free_def list_all_iff)

lemma I1_Cons:
  "I1 d \<Longrightarrow> members d' = m # members d \<Longrightarrow> slot m = (p, r) \<Longrightarrow> slot_free d p r \<Longrightarrow> I1 d'"
  by (auto simp: I1_def slot_free_def list_all_iff)

lemma slot_free_Cons:
  "slot_free d p r' \<Longrightarrow> members d' = m # members d \<Longrightarrow> slot m = (p, r) \<Longrightarrow> r \<noteq> r' \<Longrightarrow> slot_free d' p r'"
  by (auto simp: slot_free_def list_all_iff)

lemma exec_creates_I1:
  "I1 d \<Longrightarrow> distinct rs \<Longrightarrow> \<forall>r\<in>set rs. trim r = r \<and> slot_free d (trim pid) r
   \<Longrightarrow> I1 (snd (exec (map (assign_call pid des) rs) d))"
proof (induction rs arbitrary: d)
  case Nil
  then show ?case by simp
next
  case (Cons r rs)
  let ?d1 = "snd (apply_mutation d (assign_call pid des r))"
  have tr: "trim r = r" and fr: "slot_free d (trim pid) r" using Cons.prems(3) by auto
  show ?case
  proof (cases "isl (fst (apply_mutation d (assign_call pid des r)))")
    case True
    then show ?thesis using Cons.prems(1)
      by (simp add: exec_Cons_snd del: exec.simps)
  next
    case False
    have step: "I1 ?d1 \<and> (\<forall>r'\<in>set rs. trim r' = r' \<and> slot_free ?d1 (trim pid) r')"
    proof -
      from assign_call_members[of d pid des r]
      consider "members ?d1 = members d"
        | m where "members ?d1 = m # members d" "slot m = (trim pid, r)"
        using tr by auto
      then show ?thesis
      proof cases
        case 1
        then have "members ?d1 = filter (\<lambda>m. True) (members d)" by simp
        then show ?thesis using Cons.prems(1,3) I1_filter slot_free_filter
          by (metis list.set_intros(2))
      next
        case 2
        have "I1 ?d1" using Cons.prems(1) 2 fr by (rule I1_Cons)
        moreover have "\<forall>r'\<in>set rs. trim r' = r' \<and> slot_free ?d1 (trim pid) r'"
        proof
          fix r' assume r': "r' \<in> set rs"
          then have ne: "r \<noteq> r'" using Cons.prems(2) by auto
          have "slot_free d (trim pid) r'" "trim r' = r'" using Cons.prems(3) r' by auto
          then show "trim r' = r' \<and> slot_free ?d1 (trim pid) r'"
            using slot_free_Cons[OF _ 2(1) 2(2) ne] by simp
        qed
        ultimately show ?thesis by simp
      qed
    qed
    have "distinct rs" using Cons.prems(2) by simp
    from Cons.IH[of ?d1, OF _ this] step
    have "I1 (snd (exec (map (assign_call pid des) rs) ?d1))" by blast
    then show ?thesis using False
      by (simp add: exec_Cons_snd del: exec.simps)
  qed
qed

lemma setProjectRoles_unchanged:
  "b = NoAssignments \<or> b = NullAssignments \<or> trim pid = []
     \<or> (\<exists>a. b = Assignments a \<and> a (js ''hasOwnProperty'') \<noteq> None)
   \<Longrightarrow> snd (setProjectRoles d pid b) = d"
  by (cases b; cases "trim pid = []") (auto simp: setProjectRoles_rejected)

lemma setProjectRoles_I1:
  assumes "I1 d" "fills_only_empty d (SetState pid b)"
  shows "I1 (snd (setProjectRoles d pid b))"
proof (cases "b = NoAssignments \<or> b = NullAssignments \<or> trim pid = []
     \<or> (\<exists>a. b = Assignments a \<and> a (js ''hasOwnProperty'') \<noteq> None)")
  case True
  then show ?thesis using assms(1) setProjectRoles_unchanged by simp
next
  case False
  then obtain a where a: "b = Assignments a" "a (js ''hasOwnProperty'') = None" "trim pid \<noteq> []"
    by (cases b) auto
  let ?cur = "currentByRole (projectMember_findMany d (trim pid))"
  let ?des = "desired a"
  let ?dels = "map (\<lambda>entry. Delete (fst (snd entry))) (filter (\<lambda>entry. nextUserId ?des (fst entry) = JNull) ?cur)"
  let ?rs = "filter (needs_assign ?des ?cur) ROLE_CATALOG"
  let ?crs = "map (assign_call pid ?des) ?rs"
  let ?d1 = "snd (exec ?dels d)"
  obtain P where P: "members ?d1 = filter P (members d)"
    using exec_deletes_members[of "\<lambda>entry. fst (snd entry)" _ d] by blast
  have i1: "I1 ?d1" using assms(1) P by (rule I1_filter)
  have free: "\<forall>r\<in>set ?rs. trim r = r \<and> slot_free ?d1 (trim pid) r"
  proof
    fix r assume r: "r \<in> set ?rs"
    then have cat: "r \<in> set ROLE_CATALOG" and na: "needs_assign ?des ?cur r" by auto
    from assms(2) a(1) cat na have "slot_free d (trim pid) r"
      by (auto simp: list_all_iff)
    then have "slot_free ?d1 (trim pid) r" using P by (rule slot_free_filter)
    then show "trim r = r \<and> slot_free ?d1 (trim pid) r" using cat catalog_trimmed by simp
  qed
  have "distinct ?rs" using catalog_distinct by simp
  from exec_creates_I1[OF i1 this free]
  have i2: "I1 (snd (exec ?crs ?d1))" .
  have "setProjectRoles d pid b = exec (?dels @ ?crs) d"
    using a by (simp add: setProjectRoles_exec planned_def Let_def)
  then show ?thesis using i1 i2 by (simp add: exec_append_snd)
qed

lemma step_I1: "I1 d \<Longrightarrow> fills_only_empty d x \<Longrightarrow> I1 (step d x)"
proof (cases x)
  case (SetState pid b)
  assume "I1 d" "fills_only_empty d x"
  then show ?thesis using SetState setProjectRoles_I1 by simp
next
  case (AssignOne dto)
  assume a: "I1 d" "fills_only_empty d x"
  from assign_members[of d dto] show ?thesis
  proof
    assume "members (snd (assign d dto)) = members d"
    then show ?thesis using a(1) AssignOne by (simp add: I1_def)
  next
    assume "\<exists>m. members (snd (assign d dto)) = m # members d \<and> slot m = (trim (projectId dto), trim (role dto))"
    then obtain m where "members (snd (assign d dto)) = m # members d" "slot m = (trim (projectId dto), trim (role dto))" by blast
    then have "I1 (snd (assign d dto))" using a AssignOne I1_Cons[of d "snd (assign d dto)" m] by simp
    then show ?thesis using AssignOne by simp
  qed
next
  case (RemoveOne i)
  assume a: "I1 d" "fills_only_empty d x"
  obtain P where "members (snd (removeAssignment d i)) = filter P (members d)"
    using removeAssignment_members by blast
  then show ?thesis using a(1) RemoveOne I1_filter by simp
qed

lemma run_I1: "I1 d \<Longrightarrow> fills_only_empty_run d ops \<Longrightarrow> I1 (run d ops)"
  unfolding run_def
  by (induction ops arbitrary: d) (auto simp: step_I1)

text \<open>
  C2, as the code has it. \<open>assign\<close> deletes nothing: when it succeeds it adds its record in
  front of the records already stored. Starting from an empty membership set, the storage
  holds at most one record for each pair of project and role after every finite sequence of
  \<open>setState\<close>, \<open>assignOne\<close> and \<open>removeOne\<close> calls in which each \<open>assignOne\<close> names a
  slot that holds no record at that moment and each \<open>setState\<close> calls \<open>assign\<close> only for
  roles whose slot holds no record at the start of the call.
\<close>

theorem I1_when_filling_empty_slots:
  "(members d = [] \<and> fills_only_empty_run d ops \<longrightarrow> I1 (run d ops))
   \<and> (\<forall>m d'. assign d dto = (Inr m, d') \<longrightarrow> members d' = m # members d)"
proof (intro conjI impI allI)
  assume "members d = [] \<and> fills_only_empty_run d ops"
  then have "I1 d" "fills_only_empty_run d ops" by (simp_all add: I1_def)
  then show "I1 (run d ops)" by (rule run_I1)
next
  fix m d' assume "assign d dto = (Inr m, d')"
  then show "members d' = m # members d" by (auto simp: assign_cases Let_def split: if_splits)
qed

theorem I1_when_filling_empty_slots_witness:
  "members db_empty = [] \<and> fills_only_empty_run db_empty ops_empty_slots
   \<and> I1 (run db_empty ops_empty_slots)
   \<and> map mUserId (members (run db_empty ops_empty_slots)) = [js ''u2'']
   \<and> members (snd (assign db_pmc_ann \<lparr> projectId = js ''p1'', userId = js ''u2'', role = js ''PMC'' \<rparr>))
       = projr (fst (assign db_pmc_ann \<lparr> projectId = js ''p1'', userId = js ''u2'', role = js ''PMC'' \<rparr>))
         # members db_pmc_ann"
proof -
  let ?dto = "\<lparr> projectId = js ''p1'', userId = js ''u2'', role = js ''PMC'' \<rparr>"
  have h: "members db_empty = [] \<and> fills_only_empty_run db_empty ops_empty_slots" by code_simp
  have v: "map mUserId (members (run db_empty ops_empty_slots)) = [js ''u2'']" by code_simp
  have a: "assign db_pmc_ann ?dto = (Inr (projr (fst (assign db_pmc_ann ?dto))), snd (assign db_pmc_ann ?dto))"
    by code_simp
  from I1_when_filling_empty_slots[of db_empty ops_empty_slots] h
  have 1: "I1 (run db_empty ops_empty_slots)" by blast
  from I1_when_filling_empty_slots[of db_pmc_ann _ ?dto] a
  have 2: "members (snd (assign db_pmc_ann ?dto)) = projr (fst (assign db_pmc_ann ?dto)) # members db_pmc_ann"
    by blast
  from h v 1 2 show ?thesis by blast
qed

text \<open>
  C2 as the specification states it fails: two \<open>assignOne\<close> calls for the same project and
  role leave two records in that slot.
\<close>

theorem I1_assign_twice_counterexample:
  "members db_empty = []
   \<and> map slot (members (run db_empty ops_assign_twice)) = [(js ''p1'', js ''PMC''), (js ''p1'', js ''PMC'')]
   \<and> map mUserId (members (run db_empty ops_assign_twice)) = [js ''u2'', js ''u1'']
   \<and> \<not> I1 (run db_empty ops_assign_twice)"
  by code_simp

section \<open>Roles outside the catalog and roles missing from the snapshot\<close>

lemma apply_mutation_frame:
  assumes "case x of Delete i \<Rightarrow> True | Create p u r \<Rightarrow> p = pid \<and> trim r \<in> R | CreateNonString p r \<Rightarrow> True"
    and "m \<in> set (members (snd (apply_mutation d x)))"
  shows "m \<in> set (members d) \<or> (mProjectId m = trim pid \<and> mRole m \<in> R)"
proof (cases x)
  case (Delete i)
  obtain P where "members (snd (removeAssignment d i)) = filter P (members d)"
    using removeAssignment_members by blast
  then show ?thesis using assms(2) Delete by auto
next
  case (Create p u r)
  then have pr: "p = pid" "trim r \<in> R" using assms(1) by auto
  have "snd (apply_mutation d (Create p u r)) = snd (assign d \<lparr> projectId = p, userId = u, role = r \<rparr>)"
    by (simp split: prod.splits sum.splits)
  with assign_members[of d "\<lparr> projectId = p, userId = u, role = r \<rparr>"]
  show ?thesis using assms(2) Create pr
    by (auto simp: slot_def simp del: apply_mutation.simps)
next
  case (CreateNonString p r)
  then show ?thesis using assms(2) by simp
qed

lemma exec_frame:
  assumes "\<forall>x\<in>set ms. case x of Delete i \<Rightarrow> True | Create p u r \<Rightarrow> p = pid \<and> trim r \<in> R
                          | CreateNonString p r \<Rightarrow> True"
    and "m \<in> set (members (snd (exec ms d)))"
  shows "m \<in> set (members d) \<or> (mProjectId m = trim pid \<and> mRole m \<in> R)"
  using assms
proof (induction ms arbitrary: d)
  case Nil
  then show ?case by simp
next
  case (Cons x ms)
  show ?case
  proof (cases "isl (fst (apply_mutation d x))")
    case True
    then show ?thesis using Cons.prems(2)
      by (simp add: exec_Cons_snd del: exec.simps apply_mutation.simps)
  next
    case False
    then have "m \<in> set (members (snd (exec ms (snd (apply_mutation d x)))))"
      using Cons.prems(2) by (simp add: exec_Cons_snd del: exec.simps apply_mutation.simps)
    with Cons.IH[of "snd (apply_mutation d x)"] Cons.prems(1)
    have "m \<in> set (members (snd (apply_mutation d x))) \<or> (mProjectId m = trim pid \<and> mRole m \<in> R)"
      by simp
    then show ?thesis
      using apply_mutation_frame[where x = x and pid = pid and R = R and m = m and d = d] Cons.prems(1)
      by auto
  qed
qed

lemma planned_shape:
  "\<forall>x\<in>set (planned d pid a). case x of Delete i \<Rightarrow> True
       | Create p u r \<Rightarrow> p = pid \<and> trim r \<in> set ROLE_CATALOG | CreateNonString p r \<Rightarrow> True"
  using catalog_trimmed by (auto simp: planned_def Let_def assign_call_def split: jvalue.splits)

lemma setProjectRoles_frame:
  assumes "m \<in> set (members (snd (setProjectRoles d pid b)))"
  shows "m \<in> set (members d) \<or> (mProjectId m = trim pid \<and> mRole m \<in> set ROLE_CATALOG)"
proof (cases "b = NoAssignments \<or> b = NullAssignments \<or> trim pid = []
     \<or> (\<exists>a. b = Assignments a \<and> a (js ''hasOwnProperty'') \<noteq> None)")
  case True
  then show ?thesis using assms setProjectRoles_unchanged by simp
next
  case False
  then obtain a where a: "b = Assignments a" "a (js ''hasOwnProperty'') = None" "trim pid \<noteq> []"
    by (cases b) auto
  then have "m \<in> set (members (snd (exec (planned d pid a) d)))"
    using assms by (simp add: setProjectRoles_exec)
  with planned_shape[of d pid a] show ?thesis by (rule exec_frame)
qed

lemma getProjectRoles_Inr:
  assumes "getProjectRoles d q = Inr a'" "k \<in> dom a'" "k \<notin> set ROLE_CATALOG"
  shows "\<exists>m\<in>set (members d). mProjectId m = trim q \<and> mRole m = k"
proof -
  have nb: "trim q \<noteq> []" using assms(1)
    by (auto simp: getProjectRoles_def listAssignments_def normStr_def Let_def split: if_splits)
  then have "a' = foldl put_row init_roles (projectMember_findMany d (trim q))"
    using assms(1) getProjectRoles_nonblank[of q d] by simp
  then have "k \<in> set ROLE_CATALOG \<union> {mRole m | m. m \<in> set (projectMember_findMany d (trim q))
                 \<and> mRole m \<noteq> [] \<and> mRole m \<noteq> js ''__proto__''}"
    using assms(2) by (simp add: dom_put_rows dom_init_roles)
  then show ?thesis using assms(3) by (auto simp: set_findMany)
qed

lemma map_of_index:
  "map_of (foldl index_row acc items) r
     = (if filter (\<lambda>x. mRole x = r \<and> mRole x \<noteq> [] \<and> mId x \<noteq> []) items = [] then map_of acc r
        else Some (mId (last (filter (\<lambda>x. mRole x = r \<and> mRole x \<noteq> [] \<and> mId x \<noteq> []) items)),
                   mUserId (last (filter (\<lambda>x. mRole x = r \<and> mRole x \<noteq> [] \<and> mId x \<noteq> []) items))))"
  by (induction items rule: rev_induct) (auto simp: index_row_def AList.update_conv')

lemma removeAssignment_success:
  "fst (removeAssignment d i) = Inr u
   \<Longrightarrow> members (snd (removeAssignment d i)) = filter (\<lambda>m. mId m \<noteq> trim i) (members d)"
  by (auto simp: removeAssignment_def projectMember_delete_def Let_def normStr_def split: if_splits)

lemma exec_Cons_fst:
  "fst (exec (m # ms) d) = Inr u
   \<Longrightarrow> fst (apply_mutation d m) = Inr () \<and> fst (exec ms (snd (apply_mutation d m))) = Inr ()"
  by (auto split: prod.splits sum.splits)

lemma exec_append_fst:
  "fst (exec (xs @ ys) d) = Inr u
   \<Longrightarrow> fst (exec xs d) = Inr () \<and> fst (exec ys (snd (exec xs d))) = Inr ()"
  by (auto simp: exec_append split: prod.splits sum.splits)

lemma exec_deletes_gone:
  "fst (exec (map (\<lambda>entry. Delete (g entry)) es) d) = Inr () \<Longrightarrow> e \<in> set es
   \<Longrightarrow> \<forall>m\<in>set (members (snd (exec (map (\<lambda>entry. Delete (g entry)) es) d))). mId m \<noteq> trim (g e)"
proof (induction es arbitrary: d)
  case Nil
  then show ?case by simp
next
  case (Cons x es)
  let ?d1 = "snd (apply_mutation d (Delete (g x)))"
  from exec_Cons_fst[of "Delete (g x)" "map (\<lambda>entry. Delete (g entry)) es" d] Cons.prems(1)
  have ok1: "fst (apply_mutation d (Delete (g x))) = Inr ()"
    and ok2: "fst (exec (map (\<lambda>entry. Delete (g entry)) es) ?d1) = Inr ()"
    by simp_all
  have e: "snd (exec (map (\<lambda>entry. Delete (g entry)) (x # es)) d)
             = snd (exec (map (\<lambda>entry. Delete (g entry)) es) ?d1)"
    using ok1 by (simp add: exec_Cons_snd del: exec.simps apply_mutation.simps)
  show ?case
  proof (cases "e = x")
    case True
    have m1: "members ?d1 = filter (\<lambda>m. mId m \<noteq> trim (g x)) (members d)"
      using ok1 removeAssignment_success[of d "g x"] by simp
    obtain P where "members (snd (exec (map (\<lambda>entry. Delete (g entry)) es) ?d1)) = filter P (members ?d1)"
      using exec_deletes_members[of g es ?d1] by blast
    then show ?thesis unfolding e using m1 True by auto
  next
    case False
    then have "e \<in> set es" using Cons.prems(2) by simp
    from Cons.IH[OF ok2 this] show ?thesis unfolding e .
  qed
qed

lemma exec_creates_slot_free:
  "slot_free d (trim pid) r \<Longrightarrow> r \<notin> set rs \<Longrightarrow> \<forall>r'\<in>set rs. trim r' = r'
   \<Longrightarrow> slot_free (snd (exec (map (assign_call pid des) rs) d)) (trim pid) r"
proof (induction rs arbitrary: d)
  case Nil
  then show ?case by simp
next
  case (Cons x rs)
  let ?d1 = "snd (apply_mutation d (assign_call pid des x))"
  have x: "trim x = x" "x \<noteq> r" using Cons.prems(2,3) by auto
  have f1: "slot_free ?d1 (trim pid) r"
  proof -
    from assign_call_members[of d pid des x]
    consider "members ?d1 = members d"
      | m where "members ?d1 = m # members d" "slot m = (trim pid, x)"
      using x(1) by auto
    then show ?thesis
    proof cases
      case 1
      then show ?thesis using Cons.prems(1) by (simp add: slot_free_def)
    next
      case 2
      show ?thesis using slot_free_Cons[OF Cons.prems(1) 2(1) 2(2) x(2)] .
    qed
  qed
  have "slot_free (snd (exec (map (assign_call pid des) rs) ?d1)) (trim pid) r"
    using Cons.IH[OF f1] Cons.prems(2,3) by simp
  then show ?case using Cons.prems(1)
    by (simp add: exec_Cons_snd del: exec.simps)
qed

lemma catalog_nonempty_roles: "\<forall>r\<in>set ROLE_CATALOG. r \<noteq> []"
  by code_simp

lemma setProjectRoles_unassigns:
  assumes nb: "trim pid \<noteq> []" and ho: "a (js ''hasOwnProperty'') = None"
    and cat: "r \<in> set ROLE_CATALOG" and nul: "a r = None \<or> a r = Some JNull"
    and ok: "fst (setProjectRoles d pid (Assignments a)) = Inr ()"
    and ids: "\<forall>m\<in>set (members d). mProjectId m = trim pid \<and> mRole m = r
                \<longrightarrow> mId m \<noteq> [] \<and> trim (mId m) = mId m"
    and one: "length (filter (\<lambda>m. mProjectId m = trim pid \<and> mRole m = r) (members d)) \<le> 1"
  shows "slot_free (snd (setProjectRoles d pid (Assignments a))) (trim pid) r"
proof -
  let ?items = "projectMember_findMany d (trim pid)"
  let ?cur = "currentByRole ?items"
  let ?des = "desired a"
  let ?es = "filter (\<lambda>entry. nextUserId ?des (fst entry) = JNull) ?cur"
  let ?dels = "map (\<lambda>entry. Delete (fst (snd entry))) ?es"
  let ?rs = "filter (needs_assign ?des ?cur) ROLE_CATALOG"
  let ?crs = "map (assign_call pid ?des) ?rs"
  let ?d1 = "snd (exec ?dels d)"
  let ?Q = "\<lambda>x. mRole x = r \<and> mRole x \<noteq> [] \<and> mId x \<noteq> []"
  have nx: "nextUserId ?des r = JNull" using cat nul by (auto simp: nextUserId_catalog)
  have rne: "r \<noteq> []" using cat catalog_nonempty_roles by blast
  have eq: "setProjectRoles d pid (Assignments a) = exec (?dels @ ?crs) d"
    using nb ho by (simp add: setProjectRoles_exec planned_def Let_def)
  from ok exec_append_fst[of ?dels ?crs d] have ok1: "fst (exec ?dels d) = Inr ()"
    unfolding eq by simp
  obtain P where P: "members ?d1 = filter P (members d)"
    using exec_deletes_members[of "\<lambda>entry. fst (snd entry)" ?es d] by blast
  have free1: "slot_free ?d1 (trim pid) r"
    unfolding slot_free_def list_all_iff
  proof
    fix m assume m1: "m \<in> set (members ?d1)"
    show "slot m \<noteq> (trim pid, r)"
    proof
      assume sm: "slot m = (trim pid, r)"
      have md: "m \<in> set (members d)" using m1 P by simp
      have mp: "mProjectId m = trim pid" "mRole m = r" using sm by (simp_all add: slot_def)
      have mid: "mId m \<noteq> []" "trim (mId m) = mId m" using ids md mp by auto
      have only: "\<forall>x\<in>set (members d). mProjectId x = trim pid \<and> mRole x = r \<longrightarrow> x = m"
      proof (intro ballI impI)
        fix x assume x: "x \<in> set (members d)" "mProjectId x = trim pid \<and> mRole x = r"
        let ?F = "filter (\<lambda>m. mProjectId m = trim pid \<and> mRole m = r) (members d)"
        have "m \<in> set ?F" "x \<in> set ?F" using md mp x by simp_all
        moreover obtain y where "?F = [y]"
          using one \<open>m \<in> set ?F\<close> by (cases ?F) (auto simp: Suc_le_eq)
        ultimately show "x = m" by simp
      qed
      have mi: "m \<in> set ?items" using md mp by (simp add: set_findMany)
      have ne: "filter ?Q ?items \<noteq> []" using mi mp mid rne by (auto simp: filter_empty_conv)
      then have "last (filter ?Q ?items) \<in> set (filter ?Q ?items)" by (rule last_in_set)
      then have "last (filter ?Q ?items) = m" using only by (auto simp: set_findMany)
      then have "map_of ?cur r = Some (mId m, mUserId m)"
        using ne by (simp add: currentByRole_def map_of_index)
      then have "(r, mId m, mUserId m) \<in> set ?cur" by (rule map_of_SomeD)
      then have "(r, mId m, mUserId m) \<in> set ?es" using nx by simp
      from exec_deletes_gone[OF ok1 this] m1 have "mId m \<noteq> trim (mId m)" by auto
      then show False using mid by simp
    qed
  qed
  have nr: "r \<notin> set ?rs" using nx by (simp add: needs_assign_def Let_def truthy_value_def)
  have tr: "\<forall>r'\<in>set ?rs. trim r' = r'" using catalog_trimmed by simp
  have "slot_free (snd (exec ?crs ?d1)) (trim pid) r"
    using free1 nr tr by (rule exec_creates_slot_free)
  then show ?thesis using ok1 unfolding eq by (simp add: exec_append_snd)
qed

lemma getProjectRoles_free_slot:
  assumes "trim pid \<noteq> []" "r \<in> set ROLE_CATALOG" "slot_free d (trim pid) r"
  shows "getProjectRoles d pid = Inr (projr (getProjectRoles d pid))"
    and "projr (getProjectRoles d pid) r = Some None"
proof -
  have "\<forall>m\<in>set (projectMember_findMany d (trim pid)). mRole m \<noteq> r"
    using assms(3) by (auto simp: slot_free_def list_all_iff slot_def set_findMany)
  then show "projr (getProjectRoles d pid) r = Some None"
    using assms(1,2) by (simp add: getProjectRoles_nonblank put_rows_untouched init_roles_val)
  show "getProjectRoles d pid = Inr (projr (getProjectRoles d pid))"
    using assms(1) by (simp add: getProjectRoles_nonblank)
qed

text \<open>
  C7, as the code has it. A snapshot with an own key \<open>hasOwnProperty\<close> makes the bulk
  assignment fail with a \<open>TypeError\<close> before any mutation. Apart from that key, the call
  reads the snapshot at the catalog roles only, a missing role as \<open>null\<close>: two snapshots
  that agree there give the same answer and the same database, so the other keys outside the
  catalog are ignored and raise nothing. The call creates no record with a role outside the
  catalog: such a role is a key of a later read of a project only if the storage held a
  record of that project with that role before the call. A catalog role that is missing
  from the snapshot, or \<open>null\<close> in it, is unassigned by a call that succeeds: when the slot
  held at most one record, with a non-empty id free of surrounding white space, the slot is
  empty afterwards and the next read reports \<open>null\<close> for the role.
\<close>

theorem setProjectRoles_ignores_unknown_keys:
  "(trim pid \<noteq> [] \<and> a (js ''hasOwnProperty'') \<noteq> None
      \<longrightarrow> setProjectRoles d pid (Assignments a) = (Inl TypeError, d))
   \<and> ((a (js ''hasOwnProperty'') = None) = (b (js ''hasOwnProperty'') = None)
        \<and> (\<forall>r\<in>set ROLE_CATALOG.
              (case a r of Some v \<Rightarrow> v | None \<Rightarrow> JNull) = (case b r of Some v \<Rightarrow> v | None \<Rightarrow> JNull))
      \<longrightarrow> setProjectRoles d pid (Assignments a) = setProjectRoles d pid (Assignments b))
   \<and> (\<forall>q a' k. getProjectRoles (snd (setProjectRoles d pid (Assignments a))) q = Inr a'
           \<and> k \<in> dom a' \<and> k \<notin> set ROLE_CATALOG
        \<longrightarrow> (\<exists>m\<in>set (members d). mProjectId m = trim q \<and> mRole m = k))
   \<and> (\<forall>r\<in>set ROLE_CATALOG.
         trim pid \<noteq> [] \<and> a (js ''hasOwnProperty'') = None \<and> (a r = None \<or> a r = Some JNull)
         \<and> fst (setProjectRoles d pid (Assignments a)) = Inr ()
         \<and> (\<forall>m\<in>set (members d). mProjectId m = trim pid \<and> mRole m = r
               \<longrightarrow> mId m \<noteq> [] \<and> trim (mId m) = mId m)
         \<and> length (filter (\<lambda>m. mProjectId m = trim pid \<and> mRole m = r) (members d)) \<le> 1
        \<longrightarrow> (\<forall>m\<in>set (members (snd (setProjectRoles d pid (Assignments a)))).
                \<not> (mProjectId m = trim pid \<and> mRole m = r))
            \<and> (\<exists>a'. getProjectRoles (snd (setProjectRoles d pid (Assignments a))) pid = Inr a'
                   \<and> a' r = Some None))"
proof (intro conjI)
  show "trim pid \<noteq> [] \<and> a (js ''hasOwnProperty'') \<noteq> None
      \<longrightarrow> setProjectRoles d pid (Assignments a) = (Inl TypeError, d)"
    by (simp add: setProjectRoles_rejected)
  show "(a (js ''hasOwnProperty'') = None) = (b (js ''hasOwnProperty'') = None)
        \<and> (\<forall>r\<in>set ROLE_CATALOG.
              (case a r of Some v \<Rightarrow> v | None \<Rightarrow> JNull) = (case b r of Some v \<Rightarrow> v | None \<Rightarrow> JNull))
      \<longrightarrow> setProjectRoles d pid (Assignments a) = setProjectRoles d pid (Assignments b)"
  proof
    assume h: "(a (js ''hasOwnProperty'') = None) = (b (js ''hasOwnProperty'') = None)
        \<and> (\<forall>r\<in>set ROLE_CATALOG.
              (case a r of Some v \<Rightarrow> v | None \<Rightarrow> JNull) = (case b r of Some v \<Rightarrow> v | None \<Rightarrow> JNull))"
    then have "desired a = desired b" by (simp add: desired_cong)
    then have "normalize_incoming (Assignments a) = normalize_incoming (Assignments b)"
      using h by (simp add: normalize_incoming_def)
    then show "setProjectRoles d pid (Assignments a) = setProjectRoles d pid (Assignments b)"
      by (auto simp: setProjectRoles_def Let_def split: sum.splits)
  qed
  show "\<forall>q a' k. getProjectRoles (snd (setProjectRoles d pid (Assignments a))) q = Inr a'
           \<and> k \<in> dom a' \<and> k \<notin> set ROLE_CATALOG
        \<longrightarrow> (\<exists>m\<in>set (members d). mProjectId m = trim q \<and> mRole m = k)"
  proof (intro allI impI)
    fix q a' k
    assume h: "getProjectRoles (snd (setProjectRoles d pid (Assignments a))) q = Inr a'
           \<and> k \<in> dom a' \<and> k \<notin> set ROLE_CATALOG"
    then obtain m where m: "m \<in> set (members (snd (setProjectRoles d pid (Assignments a))))"
       "mProjectId m = trim q" "mRole m = k"
      using getProjectRoles_Inr by blast
    with setProjectRoles_frame[OF m(1)] h have "m \<in> set (members d)" by auto
    with m show "\<exists>m\<in>set (members d). mProjectId m = trim q \<and> mRole m = k" by blast
  qed
  show "\<forall>r\<in>set ROLE_CATALOG.
         trim pid \<noteq> [] \<and> a (js ''hasOwnProperty'') = None \<and> (a r = None \<or> a r = Some JNull)
         \<and> fst (setProjectRoles d pid (Assignments a)) = Inr ()
         \<and> (\<forall>m\<in>set (members d). mProjectId m = trim pid \<and> mRole m = r
               \<longrightarrow> mId m \<noteq> [] \<and> trim (mId m) = mId m)
         \<and> length (filter (\<lambda>m. mProjectId m = trim pid \<and> mRole m = r) (members d)) \<le> 1
        \<longrightarrow> (\<forall>m\<in>set (members (snd (setProjectRoles d pid (Assignments a)))).
                \<not> (mProjectId m = trim pid \<and> mRole m = r))
            \<and> (\<exists>a'. getProjectRoles (snd (setProjectRoles d pid (Assignments a))) pid = Inr a'
                   \<and> a' r = Some None)"
  proof (intro ballI impI)
    fix r
    assume cat: "r \<in> set ROLE_CATALOG"
      and h: "trim pid \<noteq> [] \<and> a (js ''hasOwnProperty'') = None \<and> (a r = None \<or> a r = Some JNull)
         \<and> fst (setProjectRoles d pid (Assignments a)) = Inr ()
         \<and> (\<forall>m\<in>set (members d). mProjectId m = trim pid \<and> mRole m = r
               \<longrightarrow> mId m \<noteq> [] \<and> trim (mId m) = mId m)
         \<and> length (filter (\<lambda>m. mProjectId m = trim pid \<and> mRole m = r) (members d)) \<le> 1"
    let ?d' = "snd (setProjectRoles d pid (Assignments a))"
    from h have p: "trim pid \<noteq> []" "a (js ''hasOwnProperty'') = None" "a r = None \<or> a r = Some JNull"
      "fst (setProjectRoles d pid (Assignments a)) = Inr ()"
      "\<forall>m\<in>set (members d). mProjectId m = trim pid \<and> mRole m = r
               \<longrightarrow> mId m \<noteq> [] \<and> trim (mId m) = mId m"
      "length (filter (\<lambda>m. mProjectId m = trim pid \<and> mRole m = r) (members d)) \<le> 1"
      by simp_all
    have free: "slot_free ?d' (trim pid) r"
      by (rule setProjectRoles_unassigns[OF p(1) p(2) cat p(3) p(4) p(5) p(6)])
    then have 1: "\<forall>m\<in>set (members ?d'). \<not> (mProjectId m = trim pid \<and> mRole m = r)"
      by (auto simp: slot_free_def list_all_iff slot_def)
    from getProjectRoles_free_slot[OF p(1) cat free]
    have 2: "\<exists>a'. getProjectRoles ?d' pid = Inr a' \<and> a' r = Some None" by blast
    from 1 2 show "(\<forall>m\<in>set (members ?d'). \<not> (mProjectId m = trim pid \<and> mRole m = r))
            \<and> (\<exists>a'. getProjectRoles ?d' pid = Inr a' \<and> a' r = Some None)"
      by blast
  qed
qed

theorem setProjectRoles_ignores_unknown_keys_witness:
  "setProjectRoles db_pmc_ann (js ''p1'') (Assignments snapshot_hasOwnProperty) = (Inl TypeError, db_pmc_ann)
   \<and> setProjectRoles db_pmc_ann (js ''p1'') (Assignments snapshot_unknown)
       = setProjectRoles db_pmc_ann (js ''p1'') (Assignments Map.empty)
   \<and> fst (setProjectRoles db_pmc_ann (js ''p1'') (Assignments snapshot_unknown)) = Inr ()
   \<and> projr (getProjectRoles (snd (setProjectRoles db_pmc_ann (js ''p1'') (Assignments snapshot_unknown)))
             (js ''p1'')) (js ''NotARole'') = None
   \<and> js ''NotARole''
       \<in> dom (projr (getProjectRoles
                       (snd (setProjectRoles db_two_unknown (js ''p1'') (Assignments snapshot_unknown)))
                       (js ''p1'')))
   \<and> js ''NotARole'' \<notin> set ROLE_CATALOG
   \<and> (\<exists>m\<in>set (members db_two_unknown). mProjectId m = trim (js ''p1'') \<and> mRole m = js ''NotARole'')
   \<and> map mRole (members db_pmc_ann) = [js ''PMC'']
   \<and> members (snd (setProjectRoles db_pmc_ann (js ''p1'') (Assignments snapshot_unknown))) = []
   \<and> (\<exists>a'. getProjectRoles (snd (setProjectRoles db_pmc_ann (js ''p1'') (Assignments snapshot_unknown)))
              (js ''p1'') = Inr a'
          \<and> a' (js ''PMC'') = Some None)"
proof -
  let ?p = "js ''p1''"
  let ?d' = "snd (setProjectRoles db_two_unknown ?p (Assignments snapshot_unknown))"
  have n: "trim ?p \<noteq> []" by code_simp
  have o: "snapshot_hasOwnProperty (js ''hasOwnProperty'') \<noteq> None" by code_simp
  from setProjectRoles_ignores_unknown_keys[where pid = ?p and a = snapshot_hasOwnProperty and d = db_pmc_ann] n o
  have 0: "setProjectRoles db_pmc_ann ?p (Assignments snapshot_hasOwnProperty) = (Inl TypeError, db_pmc_ann)"
    by blast
  have agree: "(snapshot_unknown (js ''hasOwnProperty'') = None) = (Map.empty (js ''hasOwnProperty'') = None)
     \<and> (\<forall>r\<in>set ROLE_CATALOG.
      (case snapshot_unknown r of Some v \<Rightarrow> v | None \<Rightarrow> JNull) = (case Map.empty r of Some v \<Rightarrow> v | None \<Rightarrow> JNull))"
    by code_simp
  from setProjectRoles_ignores_unknown_keys[where pid = ?p and a = snapshot_unknown and b = Map.empty and d = db_pmc_ann] agree
  have 1: "setProjectRoles db_pmc_ann ?p (Assignments snapshot_unknown)
             = setProjectRoles db_pmc_ann ?p (Assignments Map.empty)"
    by blast
  have 2: "fst (setProjectRoles db_pmc_ann ?p (Assignments snapshot_unknown)) = Inr ()"
    "projr (getProjectRoles (snd (setProjectRoles db_pmc_ann ?p (Assignments snapshot_unknown))) ?p)
       (js ''NotARole'') = None"
    by code_simp+
  have g: "getProjectRoles ?d' ?p = Inr (projr (getProjectRoles ?d' ?p))"
    using n by (simp add: getProjectRoles_nonblank)
  have v: "projr (getProjectRoles ?d' ?p) (js ''NotARole'') = Some (Some (js ''u2''))" by code_simp
  then have k: "js ''NotARole'' \<in> dom (projr (getProjectRoles ?d' ?p))" by auto
  have c: "js ''NotARole'' \<notin> set ROLE_CATALOG" by code_simp
  from setProjectRoles_ignores_unknown_keys[where pid = ?p and a = snapshot_unknown and d = db_two_unknown] g k c
  have 3: "\<exists>m\<in>set (members db_two_unknown). mProjectId m = trim ?p \<and> mRole m = js ''NotARole''"
    by blast
  have u: "js ''PMC'' \<in> set ROLE_CATALOG"
    "snapshot_unknown (js ''hasOwnProperty'') = None"
    "snapshot_unknown (js ''PMC'') = None \<or> snapshot_unknown (js ''PMC'') = Some JNull"
    "\<forall>m\<in>set (members db_pmc_ann). mProjectId m = trim ?p \<and> mRole m = js ''PMC''
               \<longrightarrow> mId m \<noteq> [] \<and> trim (mId m) = mId m"
    "length (filter (\<lambda>m. mProjectId m = trim ?p \<and> mRole m = js ''PMC'') (members db_pmc_ann)) \<le> 1"
    by code_simp+
  from setProjectRoles_ignores_unknown_keys[where pid = ?p and a = snapshot_unknown and d = db_pmc_ann] n u 2(1)
  have 4: "\<exists>a'. getProjectRoles (snd (setProjectRoles db_pmc_ann ?p (Assignments snapshot_unknown))) ?p = Inr a'
          \<and> a' (js ''PMC'') = Some None"
    by blast
  have 5: "map mRole (members db_pmc_ann) = [js ''PMC'']"
    "members (snd (setProjectRoles db_pmc_ann ?p (Assignments snapshot_unknown))) = []"
    by code_simp+
  from 0 1 2 k c 3 4 5 show ?thesis by blast
qed

text \<open>
  C7 as the specification states it fails: after two \<open>assignOne\<close> calls with a role outside
  the catalog, a bulk assignment whose snapshot names that role succeeds, removes one of the
  two records, and the role is still a key of the next read.
\<close>

theorem setProjectRoles_unknown_key_counterexample:
  "members db_empty = []
   \<and> js ''NotARole'' \<notin> set ROLE_CATALOG
   \<and> fst (setProjectRoles (run db_empty (butlast ops_unknown_role)) (js ''p1'')
            (Assignments snapshot_unknown)) = Inr ()
   \<and> \<not> isl (getProjectRoles (run db_empty ops_unknown_role) (js ''p1''))
   \<and> projr (getProjectRoles (run db_empty ops_unknown_role) (js ''p1'')) (js ''NotARole'')
       = Some (Some (js ''u2''))"
  by code_simp

section \<open>Replacing the occupant of a role\<close>

text \<open>
  C1 fails on the code. With Ann as PMC, the bulk assignment of Bob as PMC issues a single
  create and no delete: afterwards the project holds two PMC records, Bob's and Ann's, and
  the read still reports Ann.
\<close>

theorem setProjectRoles_replace_keeps_stale_record:
  "map mUserId (members db_pmc_ann) = [js ''u1'']
   \<and> planned db_pmc_ann (js ''p1'') snapshot_pmc_bob = [Create (js ''p1'') (js ''u2'') (js ''PMC'')]
   \<and> fst (setProjectRoles db_pmc_ann (js ''p1'') (Assignments snapshot_pmc_bob)) = Inr ()
   \<and> map mRole (members (snd (setProjectRoles db_pmc_ann (js ''p1'') (Assignments snapshot_pmc_bob))))
       = [js ''PMC'', js ''PMC'']
   \<and> map mUserId (members (snd (setProjectRoles db_pmc_ann (js ''p1'') (Assignments snapshot_pmc_bob))))
       = [js ''u2'', js ''u1'']
   \<and> projr (getProjectRoles (snd (setProjectRoles db_pmc_ann (js ''p1'') (Assignments snapshot_pmc_bob)))
             (js ''p1'')) (js ''PMC'')
       = Some (Some (js ''u1''))"
  by code_simp

text \<open>
  C5 fails on the code. Sending the same snapshot again after that replacement is not a
  no-op: the index shows Ann's older record, so the second call creates another record for
  Bob and the database changes again.
\<close>

theorem setProjectRoles_second_call_mutates:
  "planned db_after_replace (js ''p1'') snapshot_pmc_bob = [Create (js ''p1'') (js ''u2'') (js ''PMC'')]
   \<and> fst (setProjectRoles db_after_replace (js ''p1'') (Assignments snapshot_pmc_bob)) = Inr ()
   \<and> map mUserId (members db_after_replace) = [js ''u2'', js ''u1'']
   \<and> map mUserId (members (snd (setProjectRoles db_after_replace (js ''p1'') (Assignments snapshot_pmc_bob))))
       = [js ''u2'', js ''u2'', js ''u1'']
   \<and> snd (setProjectRoles db_after_replace (js ''p1'') (Assignments snapshot_pmc_bob)) \<noteq> db_after_replace"
  by code_simp

end
